theory Spec2Isabelle
  imports Main "HOL-Library.Word"
begin

section \<open>Machine types and panics\<close>

text \<open>
  Go's \<open>int\<close>, \<open>int64\<close>, \<open>uint64\<close> and \<open>time.Duration\<close> are 64-bit words (a 64-bit
  platform is assumed for \<open>int\<close> and \<open>uint\<close>), \<open>uint32\<close> and \<open>int32\<close> are 32-bit words.
  Conversions between a signed and an unsigned type of the same width keep the bits, so
  they are the identity on words; signed comparisons are written \<open><s\<close> and \<open>\<le>s\<close>.
  A \<open>float64\<close> is carried as its IEEE-754 bit pattern: the code only copies it, and the
  zero value \<open>+0.0\<close> is the pattern \<open>0\<close>.
\<close>

type_synonym go_int = "64 word"
type_synonym int64 = "64 word"
type_synonym uint64 = "64 word"
type_synonym int32 = "32 word"
type_synonym uint32 = "32 word"
type_synonym float64 = "64 word"
type_synonym Duration = "64 word"

datatype panic = NilPointerDereference | IndexOutOfRange | NonPositiveTickerInterval

section \<open>Package collector: the runtime snapshot\<close>

text \<open>
  \<open>runtime.MemStats\<close>, restricted to the fields \<open>collectMemStats\<close> reads. The field
  names carry the prefix \<open>m_\<close> because \<open>Fields\<close> below uses the same names. \<open>PauseNs\<close> is
  the array \<open>[256]uint64\<close>: a function on indices, read through \<open>index256\<close>, which
  panics outside \<open>0..255\<close> as Go's bounds check does.
\<close>

record MemStats =
  m_Alloc :: uint64
  m_TotalAlloc :: uint64
  m_Sys :: uint64
  m_Lookups :: uint64
  m_Mallocs :: uint64
  m_Frees :: uint64
  m_HeapAlloc :: uint64
  m_HeapSys :: uint64
  m_HeapIdle :: uint64
  m_HeapInuse :: uint64
  m_HeapReleased :: uint64
  m_HeapObjects :: uint64
  m_StackInuse :: uint64
  m_StackSys :: uint64
  m_MSpanInuse :: uint64
  m_MSpanSys :: uint64
  m_MCacheInuse :: uint64
  m_MCacheSys :: uint64
  m_OtherSys :: uint64
  m_GCSys :: uint64
  m_NextGC :: uint64
  m_LastGC :: uint64
  m_PauseTotalNs :: uint64
  m_PauseNs :: "nat \<Rightarrow> uint64"
  m_NumGC :: uint32
  m_GCCPUFraction :: float64

text \<open>What the Go runtime answers when \<open>CollectStats\<close> asks it.\<close>

record runtime_env =
  ReadMemStats :: MemStats
  NumCPU :: go_int
  NumGoroutine_rt :: go_int
  NumCgoCall_rt :: int64
  GOOS :: string
  GOARCH :: string
  Version_rt :: string

record Fields =
  NumCpu :: go_int
  NumGoroutine :: go_int
  NumCgoCall :: int64
  Alloc :: int64
  TotalAlloc :: int64
  Sys :: int64
  Lookups :: int64
  Mallocs :: int64
  Frees :: int64
  HeapAlloc :: int64
  HeapSys :: int64
  HeapIdle :: int64
  HeapInuse :: int64
  HeapReleased :: int64
  HeapObjects :: int64
  StackInuse :: int64
  StackSys :: int64
  MSpanInuse :: int64
  MSpanSys :: int64
  MCacheInuse :: int64
  MCacheSys :: int64
  OtherSys :: int64
  GCSys :: int64
  NextGC :: int64
  LastGC :: int64
  PauseTotalNs :: int64
  PauseNs :: int64
  NumGC :: int32
  GCCPUFraction :: float64
  Goarch :: string
  Goos :: string
  Version :: string

text \<open>The zero value of \<open>Fields\<close>: what the named result \<open>fields\<close> (here \<open>fs\<close>) holds on entry.\<close>

definition Fields_zero :: Fields where
  "Fields_zero = \<lparr> NumCpu = 0, NumGoroutine = 0, NumCgoCall = 0,
     Alloc = 0, TotalAlloc = 0, Sys = 0, Lookups = 0, Mallocs = 0, Frees = 0,
     HeapAlloc = 0, HeapSys = 0, HeapIdle = 0, HeapInuse = 0, HeapReleased = 0,
     HeapObjects = 0,
     StackInuse = 0, StackSys = 0, MSpanInuse = 0, MSpanSys = 0, MCacheInuse = 0,
     MCacheSys = 0, OtherSys = 0,
     GCSys = 0, NextGC = 0, LastGC = 0, PauseTotalNs = 0, PauseNs = 0, NumGC = 0,
     GCCPUFraction = 0,
     Goarch = [], Goos = [], Version = [] \<rparr>"

definition index256 :: "(nat \<Rightarrow> 'a) \<Rightarrow> nat \<Rightarrow> panic + 'a" where
  "index256 a i = (if i < 256 then Inr (a i) else Inl IndexOutOfRange)"

text \<open>The index expression \<open>(m.NumGC+255)%256\<close>, in \<open>uint32\<close> arithmetic.\<close>

definition pause_index :: "uint32 \<Rightarrow> nat" where
  "pause_index n = unat ((n + 255) mod 256)"

definition collectCPUStats :: "runtime_env \<Rightarrow> Fields \<Rightarrow> Fields" where
  "collectCPUStats rt f =
     f\<lparr> NumCpu := NumCPU rt, NumGoroutine := NumGoroutine_rt rt,
        NumCgoCall := NumCgoCall_rt rt \<rparr>"

definition collectMemStats :: "runtime_env \<Rightarrow> Fields \<Rightarrow> panic + Fields" where
  "collectMemStats rt f =
     (let m = ReadMemStats rt in
      case index256 (m_PauseNs m) (pause_index (m_NumGC m)) of
        Inl p \<Rightarrow> Inl p
      | Inr pause \<Rightarrow>
          Inr (f\<lparr> Alloc := m_Alloc m, TotalAlloc := m_TotalAlloc m, Sys := m_Sys m,
                  Lookups := m_Lookups m, Mallocs := m_Mallocs m, Frees := m_Frees m,
                  HeapAlloc := m_HeapAlloc m, HeapSys := m_HeapSys m,
                  HeapIdle := m_HeapIdle m, HeapInuse := m_HeapInuse m,
                  HeapReleased := m_HeapReleased m, HeapObjects := m_HeapObjects m,
                  StackInuse := m_StackInuse m, StackSys := m_StackSys m,
                  MSpanInuse := m_MSpanInuse m, MSpanSys := m_MSpanSys m,
                  MCacheInuse := m_MCacheInuse m, MCacheSys := m_MCacheSys m,
                  OtherSys := m_OtherSys m,
                  GCSys := m_GCSys m, NextGC := m_NextGC m, LastGC := m_LastGC m,
                  PauseTotalNs := m_PauseTotalNs m, PauseNs := pause,
                  NumGC := m_NumGC m, GCCPUFraction := m_GCCPUFraction m \<rparr>))"

text \<open>
  \<open>Collector\<close>. The callback acts on some state of its owner, so it is a state
  transformer; \<open>Done\<close> is a receive-only channel, nil (\<open>None\<close>) unless the owner sets it.
\<close>

type_synonym chan = nat

record 's Collector =
  PauseDur :: Duration
  EnableCPU :: bool
  EnableMem :: bool
  Done :: "chan option"
  collectStatsCallback :: "Fields \<Rightarrow> 's \<Rightarrow> 's"

definition Second :: Duration where
  "Second = 1000000000"

definition New :: "(Fields \<Rightarrow> 's \<Rightarrow> 's) option \<Rightarrow> 's Collector" where
  "New callback =
     (let callback = (case callback of None \<Rightarrow> (\<lambda>_ s. s) | Some cb \<Rightarrow> cb) in
      \<lparr> PauseDur = 10 * Second, EnableCPU = True, EnableMem = True, Done = None,
        collectStatsCallback = callback \<rparr>)"

definition CollectStats :: "'s Collector \<Rightarrow> runtime_env \<Rightarrow> panic + Fields" where
  "CollectStats c rt =
     (case (if EnableMem c then collectMemStats rt Fields_zero else Inr Fields_zero) of
        Inl p \<Rightarrow> Inl p
      | Inr fs \<Rightarrow>
          (let fs = (if EnableCPU c then collectCPUStats rt fs else fs) in
           Inr (fs\<lparr> Goos := GOOS rt, Goarch := GOARCH rt, Version := Version_rt rt \<rparr>)))"

text \<open>The values of the map \<open>Values\<close> returns are \<open>interface{}\<close> holding one of four types.\<close>

datatype field_value = IntVal go_int | Int64Val int64 | Int32Val int32 | Float64Val float64

definition Tags :: "Fields \<Rightarrow> (string \<rightharpoonup> string)" where
  "Tags f = [''go.os'' \<mapsto> Goos f, ''go.arch'' \<mapsto> Goarch f, ''go.version'' \<mapsto> Version f]"

definition Values :: "Fields \<Rightarrow> (string \<rightharpoonup> field_value)" where
  "Values f =
     [''cpu.count'' \<mapsto> IntVal (NumCpu f),
      ''cpu.goroutines'' \<mapsto> IntVal (NumGoroutine f),
      ''cpu.cgo_calls'' \<mapsto> Int64Val (NumCgoCall f),
      ''mem.alloc'' \<mapsto> Int64Val (Alloc f),
      ''mem.total'' \<mapsto> Int64Val (TotalAlloc f),
      ''mem.sys'' \<mapsto> Int64Val (Sys f),
      ''mem.lookups'' \<mapsto> Int64Val (Lookups f),
      ''mem.malloc'' \<mapsto> Int64Val (Mallocs f),
      ''mem.frees'' \<mapsto> Int64Val (Frees f),
      ''mem.heap.alloc'' \<mapsto> Int64Val (HeapAlloc f),
      ''mem.heap.sys'' \<mapsto> Int64Val (HeapSys f),
      ''mem.heap.idle'' \<mapsto> Int64Val (HeapIdle f),
      ''mem.heap.inuse'' \<mapsto> Int64Val (HeapInuse f),
      ''mem.heap.released'' \<mapsto> Int64Val (HeapReleased f),
      ''mem.heap.objects'' \<mapsto> Int64Val (HeapObjects f),
      ''mem.stack.inuse'' \<mapsto> Int64Val (StackInuse f),
      ''mem.stack.sys'' \<mapsto> Int64Val (StackSys f),
      ''mem.stack.mspan_inuse'' \<mapsto> Int64Val (MSpanInuse f),
      ''mem.stack.mspan_sys'' \<mapsto> Int64Val (MSpanSys f),
      ''mem.stack.mcache_inuse'' \<mapsto> Int64Val (MCacheInuse f),
      ''mem.stack.mcache_sys'' \<mapsto> Int64Val (MCacheSys f),
      ''mem.othersys'' \<mapsto> Int64Val (OtherSys f),
      ''mem.gc.pause'' \<mapsto> Int64Val (PauseNs f),
      ''mem.gc.pause_total'' \<mapsto> Int64Val (PauseTotalNs f),
      ''mem.gc.sys'' \<mapsto> Int64Val (GCSys f),
      ''mem.gc.next'' \<mapsto> Int64Val (NextGC f),
      ''mem.gc.last'' \<mapsto> Int64Val (LastGC f),
      ''mem.gc.count'' \<mapsto> Int32Val (NumGC f),
      ''mem.gc.cpu_fraction'' \<mapsto> Float64Val (GCCPUFraction f)]"

text \<open>
  The documented keys: the \<open>json\<close> tags of the numeric fields in the declaration of
  \<open>Fields\<close>, in the order of the declaration (the three strings are tagged \<open>-\<close>).
\<close>

definition json_keys :: "string list" where
  "json_keys =
     [''cpu.count'', ''cpu.goroutines'', ''cpu.cgo_calls'',
      ''mem.alloc'', ''mem.total'', ''mem.sys'', ''mem.lookups'', ''mem.malloc'',
      ''mem.frees'',
      ''mem.heap.alloc'', ''mem.heap.sys'', ''mem.heap.idle'', ''mem.heap.inuse'',
      ''mem.heap.released'', ''mem.heap.objects'',
      ''mem.stack.inuse'', ''mem.stack.sys'', ''mem.stack.mspan_inuse'',
      ''mem.stack.mspan_sys'', ''mem.stack.mcache_inuse'', ''mem.stack.mcache_sys'',
      ''mem.othersys'',
      ''mem.gc.sys'', ''mem.gc.next'', ''mem.gc.last'', ''mem.gc.pause_total'',
      ''mem.gc.pause'', ''mem.gc.count'', ''mem.gc.cpu_fraction'']"

section \<open>Package influxdb: the pull-mode render function\<close>

record Point =
  Point_Name :: string
  Point_Tags :: "string \<rightharpoonup> string"
  Point_Values :: Fields

text \<open>
  \<open>Metrics measurement\<close> is an \<open>expvar.Func\<close>; the model is the result of calling that
  function once, against the runtime's answers at that moment.
\<close>

definition Metrics :: "string \<Rightarrow> runtime_env \<Rightarrow> panic + Point" where
  "Metrics measurement rt =
     (case CollectStats (New None :: unit Collector) rt of
        Inl p \<Rightarrow> Inl p
      | Inr v \<Rightarrow> Inr \<lparr> Point_Name = measurement, Point_Tags = Tags v, Point_Values = v \<rparr>)"

text \<open>The CPU group and the memory group of a snapshot, for comparing two snapshots.\<close>

definition cpu_fields :: "Fields \<Rightarrow> go_int \<times> go_int \<times> int64" where
  "cpu_fields f = (NumCpu f, NumGoroutine f, NumCgoCall f)"

definition mem_fields :: "Fields \<Rightarrow> int64 list \<times> int32 \<times> float64" where
  "mem_fields f =
     ([Alloc f, TotalAlloc f, Sys f, Lookups f, Mallocs f, Frees f,
       HeapAlloc f, HeapSys f, HeapIdle f, HeapInuse f, HeapReleased f, HeapObjects f,
       StackInuse f, StackSys f, MSpanInuse f, MSpanSys f, MCacheInuse f, MCacheSys f,
       OtherSys f, GCSys f, NextGC f, LastGC f, PauseTotalNs f, PauseNs f],
      NumGC f, GCCPUFraction f)"

text \<open>
  The Go runtime's side of the \<open>PauseNs\<close> ring buffer, from the documentation of
  \<open>runtime.MemStats\<close> ("PauseNs is a circular buffer of recent GC stop-the-world pause
  times ... The most recent pause is at PauseNs[(NumGC+255)%256]"): a completed cycle
  stores its pause at slot \<open>NumGC % 256\<close> and then increments \<open>NumGC\<close>.
\<close>

definition runtime_gc_cycle :: "uint64 \<Rightarrow> MemStats \<Rightarrow> MemStats" where
  "runtime_gc_cycle pause m =
     m\<lparr> m_PauseNs := (m_PauseNs m)(unat (m_NumGC m mod 256) := pause),
        m_NumGC := m_NumGC m + 1 \<rparr>"

section \<open>Package runstats (push mode): configuration and start-up\<close>

text \<open>
  A Go \<open>error\<close> is carried as its message; \<open>nil\<close> is \<open>None\<close> of \<open>error option\<close>.
  \<open>errors.Wrap err msg\<close> puts the message in front.
\<close>

type_synonym error = string

definition Wrap :: "error \<Rightarrow> string \<Rightarrow> error" where
  "Wrap err msg = msg @ '': '' @ err"

datatype logger = DefaultLogger | UserLogger nat

record Config =
  Addr :: string
  Database :: string
  Username :: string
  Password :: string
  Measurement :: string
  RetentionPolicy :: string
  BatchInterval :: Duration
  PingInterval :: Duration
  Precision :: string
  CollectionInterval :: Duration
  DisableCpu :: bool
  DisableMem :: bool
  Logger :: "logger option"

text \<open>\<open>Config{}\<close>, the zero value.\<close>

definition Config_zero :: Config where
  "Config_zero = \<lparr> Addr = [], Database = [], Username = [], Password = [],
     Measurement = [], RetentionPolicy = [], BatchInterval = 0, PingInterval = 0,
     Precision = [], CollectionInterval = 0, DisableCpu = False, DisableMem = False,
     Logger = None \<rparr>"

definition defaultHost :: string where "defaultHost = ''http://localhost:8086''"
definition defaultMeasurement :: string where "defaultMeasurement = ''go.runtime''"
definition defaultDatabase :: string where "defaultDatabase = ''stats''"
definition defaultCollectionInterval :: Duration where "defaultCollectionInterval = 10 * Second"
definition defaultBatchInterval :: Duration where "defaultBatchInterval = 60 * Second"
definition defaultPingInterval :: Duration where "defaultPingInterval = 60 * Second"

text \<open>
  \<open>*Config\<close> pointers. The store is a list of cells, an address is an index into it and
  \<open>nil\<close> is \<open>None\<close>; \<open>new_cell\<close> is \<open>&Config{}\<close>. Reading or writing through \<open>nil\<close> (or
  through an address that is no cell) is Go's run-time panic "invalid memory address or
  nil pointer dereference".
\<close>

type_synonym ptr = "nat option"

definition load :: "ptr \<Rightarrow> 'a list \<Rightarrow> panic + 'a" where
  "load p h =
     (case p of
        None \<Rightarrow> Inl NilPointerDereference
      | Some a \<Rightarrow> if a < length h then Inr (h ! a) else Inl NilPointerDereference)"

definition store :: "ptr \<Rightarrow> 'a \<Rightarrow> 'a list \<Rightarrow> panic + 'a list" where
  "store p v h =
     (case p of
        None \<Rightarrow> Inl NilPointerDereference
      | Some a \<Rightarrow> if a < length h then Inr (h[a := v]) else Inl NilPointerDereference)"

definition new_cell :: "'a \<Rightarrow> 'a list \<Rightarrow> ptr \<times> 'a list" where
  "new_cell v h = (Some (length h), h @ [v])"

text \<open>
  The body of \<open>Config.init\<close> after the nil guard: the fill-if-empty assignments, in the
  order of the source, on the \<open>Config\<close> the local variable \<open>config\<close> points to.
  \<open>hostname\<close> is what \<open>os.Hostname()\<close> answers.
\<close>

definition init_fields :: "error + string \<Rightarrow> Config \<Rightarrow> Config" where
  "init_fields hostname c0 =
     (let c = (if Database c0 = [] then c0\<lparr>Database := defaultDatabase\<rparr> else c0);
          c = (if Addr c = [] then c\<lparr>Addr := defaultHost\<rparr> else c);
          c = (if Measurement c = [] then
                 (let c = c\<lparr>Measurement := defaultMeasurement\<rparr> in
                  case hostname of
                    Inl err \<Rightarrow> c\<lparr>Measurement := Measurement c @ ''.unknown''\<rparr>
                  | Inr hn \<Rightarrow> c\<lparr>Measurement := Measurement c @ ''.'' @ hn\<rparr>)
               else c);
          c = (if CollectionInterval c = 0
               then c\<lparr>CollectionInterval := defaultCollectionInterval\<rparr> else c);
          c = (if BatchInterval c = 0 then c\<lparr>BatchInterval := defaultBatchInterval\<rparr> else c);
          c = (if PingInterval c = 0 then c\<lparr>PingInterval := defaultPingInterval\<rparr> else c);
          c = (if Logger c = None then c\<lparr>Logger := Some DefaultLogger\<rparr> else c)
      in c)"

text \<open>
  \<open>func (config *Config) init()\<close>. The receiver is a copy of the caller's pointer: on
  \<open>nil\<close> the assignment \<open>config = &Config{}\<close> rebinds that copy to a new cell, and all
  later writes go to the new cell. The result is the store; the caller's pointer is what
  it was.
\<close>

definition Config_init :: "error + string \<Rightarrow> ptr \<Rightarrow> Config list \<Rightarrow> panic + Config list" where
  "Config_init hostname config h =
     (let (config, h) = (if config = None then new_cell Config_zero h else (config, h)) in
      case load config h of
        Inl p \<Rightarrow> Inl p
      | Inr c \<Rightarrow> store config (init_fields hostname c) h)"

subsection \<open>The sink client\<close>

type_synonym client = nat

record response =
  response_Error :: "error option"
  Results :: "string list"

text \<open>
  What the InfluxDB client library and the operating system answer during start-up:
  the results of \<open>os.Hostname\<close>, \<open>NewHTTPClient\<close>, \<open>client.Ping\<close>, \<open>client.Query\<close> and
  \<open>NewBatchPoints\<close> (an error, or an empty batch).
\<close>

record startup_env =
  Hostname :: "error + string"
  NewHTTPClient :: "error + client"
  Ping :: "error option"
  Query :: "error + response"
  NewBatchPoints :: "error option"

text \<open>
  \<open>newClient\<close> has the named results \<open>client\<close> and \<open>err\<close>. The \<open>if\<close> statement around
  \<open>client.Ping\<close> declares, with \<open>:=\<close>, an \<open>err\<close> of its own (\<open>ping_err\<close> here); the wrapped
  ping error is assigned to that variable, and the final bare \<open>return\<close> returns the named
  result \<open>err\<close>, which is still the \<open>nil\<close> that \<open>NewHTTPClient\<close> returned.
\<close>

definition newClient :: "error + client \<Rightarrow> error option \<Rightarrow> client option \<times> error option" where
  "newClient http ping =
     (case http of
        Inl err \<Rightarrow> (None, Some (Wrap err ''failed to create influxDB client''))
      | Inr client \<Rightarrow>
          (let err = None;
               ping_err = ping;
               ping_err = (case ping_err of
                             Some e \<Rightarrow> Some (Wrap e ''failed to ping influxDB client'')
                           | None \<Rightarrow> None)
           in (Some client, err)))"

text \<open>
  \<open>queryDB\<close>: the \<open>err\<close> of \<open>c.Query\<close> is likewise local to the \<open>if\<close>; only the error
  inside a response is returned.
\<close>

definition queryDB :: "error + response \<Rightarrow> string list \<times> error option" where
  "queryDB q =
     (case q of
        Inr resp \<Rightarrow>
          (case response_Error resp of
             Some e \<Rightarrow> ([], Some e)
           | None \<Rightarrow> (Results resp, None))
      | Inl query_err \<Rightarrow> ([], None))"

text \<open>\<open>config.Logger.Println\<close>: a call on a nil interface panics; otherwise a line is logged.\<close>

definition Println :: "logger option \<Rightarrow> string \<Rightarrow> string list \<Rightarrow> panic + string list" where
  "Println l msg out =
     (case l of None \<Rightarrow> Inl NilPointerDereference | Some _ \<Rightarrow> Inr (out @ [msg]))"

text \<open>
  \<open>statsSender.newBatch\<close>: the batch (empty, or nil on error) and the error, which is
  logged.
\<close>

definition newBatch ::
  "logger option \<Rightarrow> error option \<Rightarrow> string list \<Rightarrow> panic + ('p list option \<times> error option) \<times> string list"
where
  "newBatch l batch_res out =
     (case batch_res of
        None \<Rightarrow> Inr ((Some [], None), out)
      | Some err \<Rightarrow>
          (case Println l (Wrap err ''could not create BatchPoints'') out of
             Inl p \<Rightarrow> Inl p
           | Inr out \<Rightarrow> Inr ((None, Some err), out)))"

text \<open>The goroutines the start-up code starts, and what a run of the start-up leaves.\<close>

datatype goroutine = PingLoop | BatchLoop Duration | CollectorLoop Duration bool bool

record 'p statsSender =
  sender_config :: ptr
  sender_logger :: "logger option"
  sender_client :: "client option"
  sender_points :: "'p list option"

record 'p startup =
  returned :: "error option"
  sender :: "'p statsSender option"
  started :: "goroutine list"
  closed_clients :: "client list"
  logged :: "string list"

definition newStatsSender ::
  "startup_env \<Rightarrow> ptr \<Rightarrow> Config list \<Rightarrow> panic + 'p startup"
where
  "newStatsSender env config h =
     (case load config h of
        Inl p \<Rightarrow> Inl p
      | Inr c \<Rightarrow>
          (case newClient (NewHTTPClient env) (Ping env) of
             (client, Some err) \<Rightarrow>
               Inr \<lparr> returned = Some err, sender = None, started = [],
                     closed_clients = [], logged = [] \<rparr>
           | (client, None) \<Rightarrow>
               (case (case snd (queryDB (Query env)) of
                        Some err \<Rightarrow> Println (Logger c) err []
                      | None \<Rightarrow> Inr []) of
                  Inl p \<Rightarrow> Inl p
                | Inr out \<Rightarrow>
                    (case newBatch (Logger c) (NewBatchPoints env) out of
                       Inl p \<Rightarrow> Inl p
                     | Inr ((bp, Some err), out) \<Rightarrow>
                         (case client of
                            None \<Rightarrow> Inl NilPointerDereference
                          | Some cl \<Rightarrow>
                              Inr \<lparr> returned = Some err, sender = None, started = [],
                                    closed_clients = [cl], logged = out \<rparr>)
                     | Inr ((bp, None), out) \<Rightarrow>
                         Inr \<lparr> returned = None,
                               sender = Some \<lparr> sender_config = config,
                                               sender_logger = Logger c,
                                               sender_client = client,
                                               sender_points = bp \<rparr>,
                               started = [PingLoop],
                               closed_clients = [], logged = out \<rparr>))))"

definition RunCollector ::
  "startup_env \<Rightarrow> ptr \<Rightarrow> Config list \<Rightarrow> panic + 'p startup"
where
  "RunCollector env config h =
     (case Config_init (Hostname env) config h of
        Inl p \<Rightarrow> Inl p
      | Inr h \<Rightarrow>
          (case newStatsSender env config h of
             Inl p \<Rightarrow> Inl p
           | Inr st \<Rightarrow>
               (case returned st of
                  Some err \<Rightarrow> Inr st
                | None \<Rightarrow>
                    (case load config h of
                       Inl p \<Rightarrow> Inl p
                     | Inr c \<Rightarrow>
                         Inr (st\<lparr> started := started st @
                                  [BatchLoop (BatchInterval c),
                                   CollectorLoop (CollectionInterval c)
                                     (\<not> DisableCpu c) (\<not> DisableMem c)] \<rparr>)))))"

text \<open>
  A sink that accepts the connection parameters but does not answer: the client is built,
  the ping and the query fail.
\<close>

definition env_ping_down :: startup_env where
  "env_ping_down = \<lparr> Hostname = Inr ''host'', NewHTTPClient = Inr 1,
     Ping = Some ''connection refused'', Query = Inl ''connection refused'',
     NewBatchPoints = None \<rparr>"

section \<open>Package metrics (push mode, client library v2): configuration and start-up\<close>

text \<open>The fields carry the prefix \<open>v2_\<close>: the two packages use the same names.\<close>

record Config_v2 =
  v2_Addr :: string
  v2_AuthToken :: string
  v2_Org :: string
  v2_Bucket :: string
  v2_Measurement :: string
  v2_FlushInterval :: "64 word"
  v2_CollectionInterval :: Duration
  v2_DisableCpu :: bool
  v2_DisableMem :: bool

definition Config_v2_zero :: Config_v2 where
  "Config_v2_zero = \<lparr> v2_Addr = [], v2_AuthToken = [], v2_Org = [], v2_Bucket = [],
     v2_Measurement = [], v2_FlushInterval = 0, v2_CollectionInterval = 0,
     v2_DisableCpu = False, v2_DisableMem = False \<rparr>"

definition defaultBucket :: string where "defaultBucket = ''stats''"
definition defaultFlushInterval :: "64 word" where "defaultFlushInterval = 60000"

definition init_fields_v2 :: "error + string \<Rightarrow> Config_v2 \<Rightarrow> Config_v2" where
  "init_fields_v2 hostname c0 =
     (let c = (if v2_Bucket c0 = [] then c0\<lparr>v2_Bucket := defaultBucket\<rparr> else c0);
          c = (if v2_Addr c = [] then c\<lparr>v2_Addr := defaultHost\<rparr> else c);
          c = (if v2_Measurement c = [] then
                 (let c = c\<lparr>v2_Measurement := defaultMeasurement\<rparr> in
                  case hostname of
                    Inl err \<Rightarrow> c\<lparr>v2_Measurement := v2_Measurement c @ ''.unknown''\<rparr>
                  | Inr hn \<Rightarrow> c\<lparr>v2_Measurement := v2_Measurement c @ ''.'' @ hn\<rparr>)
               else c);
          c = (if v2_CollectionInterval c = 0
               then c\<lparr>v2_CollectionInterval := defaultCollectionInterval\<rparr> else c);
          c = (if v2_FlushInterval c = 0
               then c\<lparr>v2_FlushInterval := defaultFlushInterval\<rparr> else c)
      in c)"

text \<open>
  Here the nil guard writes through the receiver: \<open>*config = Config{}\<close> with
  \<open>config == nil\<close>.
\<close>

definition Config_init_v2 ::
  "error + string \<Rightarrow> ptr \<Rightarrow> Config_v2 list \<Rightarrow> panic + Config_v2 list"
where
  "Config_init_v2 hostname config h =
     (case (if config = None then store config Config_v2_zero h else Inr h) of
        Inl p \<Rightarrow> Inl p
      | Inr h \<Rightarrow>
          (case load config h of
             Inl p \<Rightarrow> Inl p
           | Inr c \<Rightarrow> store config (init_fields_v2 hostname c) h))"

text \<open>
  \<open>RunCollector\<close> of package metrics: the client library builds its client without
  contacting the sink, the collector is configured from the resolved configuration and
  started, and \<open>nil\<close> is returned.
\<close>

definition RunCollector_v2 ::
  "error + string \<Rightarrow> ptr \<Rightarrow> Config_v2 list \<Rightarrow> panic + (error option \<times> goroutine list)"
where
  "RunCollector_v2 hostname config h =
     (case Config_init_v2 hostname config h of
        Inl p \<Rightarrow> Inl p
      | Inr h \<Rightarrow>
          (case load config h of
             Inl p \<Rightarrow> Inl p
           | Inr c \<Rightarrow>
               Inr (None, [CollectorLoop (v2_CollectionInterval c)
                            (\<not> v2_DisableCpu c) (\<not> v2_DisableMem c)])))"

section \<open>The background loops of package runstats\<close>

subsection \<open>The batch loop\<close>

text \<open>
  \<open>statsSender.loop\<close> runs forever; each iteration is one \<open>select\<close>, which receives either
  from the flush ticker or from the point channel \<open>pc\<close>. An event is what one \<open>select\<close>
  received, together with what the sink answers if the iteration asks it: the result of
  \<open>client.Write\<close> and the result of \<open>NewBatchPoints\<close>. The model runs the loop over a
  finite sequence of events.

  A batch is the list of its points (\<open>AddPoint\<close> appends, \<open>Points\<close> reads the list), and
  \<open>r.points\<close> is an interface: \<open>None\<close> is nil. \<open>delivered\<close> lists the batches the sink has
  accepted, a write being all or nothing; \<open>loop_log\<close> lists the logged lines.
\<close>

datatype 'p loop_event = Tick "error option" "error option" | Arrive 'p

record 'p loop_state =
  points :: "'p list option"
  loop_logger :: "logger option"
  delivered :: "'p list list"
  loop_log :: "string list"

fun loop_step :: "'p loop_event \<Rightarrow> 'p loop_state \<Rightarrow> panic + 'p loop_state" where
  "loop_step (Tick write_res batch_res) r =
     (case points r of
        None \<Rightarrow> Inl NilPointerDereference
      | Some pts \<Rightarrow>
          if pts = [] then Inr r
          else
            (case write_res of
               Some err \<Rightarrow>
                 (case Println (loop_logger r)
                         (Wrap err ''could not write points to InfluxDB'') (loop_log r) of
                    Inl p \<Rightarrow> Inl p
                  | Inr out \<Rightarrow> Inr (r\<lparr>loop_log := out\<rparr>))
             | None \<Rightarrow>
                 (let r = r\<lparr>delivered := delivered r @ [pts]\<rparr> in
                  case newBatch (loop_logger r) batch_res (loop_log r) of
                    Inl p \<Rightarrow> Inl p
                  | Inr ((bp, err), out) \<Rightarrow> Inr (r\<lparr>points := bp, loop_log := out\<rparr>))))"
| "loop_step (Arrive pt) r =
     (case points r of
        None \<Rightarrow> Inr r
      | Some pts \<Rightarrow> Inr (r\<lparr>points := Some (pts @ [pt])\<rparr>))"

fun loop :: "'p loop_event list \<Rightarrow> 'p loop_state \<Rightarrow> panic + 'p loop_state" where
  "loop [] r = Inr r"
| "loop (e # es) r = (case loop_step e r of Inl p \<Rightarrow> Inl p | Inr r' \<Rightarrow> loop es r')"

text \<open>The state in which \<open>RunCollector\<close> starts the loop for the sender it has built.\<close>

definition loop_start :: "'p statsSender \<Rightarrow> 'p loop_state" where
  "loop_start sd = \<lparr> points = sender_points sd, loop_logger = sender_logger sd,
     delivered = [], loop_log = [] \<rparr>"

text \<open>The points enqueued by a sequence of events, and the events that deliver nothing.\<close>

fun enqueued :: "'p loop_event list \<Rightarrow> 'p list" where
  "enqueued [] = []"
| "enqueued (Arrive pt # es) = pt # enqueued es"
| "enqueued (Tick write_res batch_res # es) = enqueued es"

fun failed_flush_or_point :: "'p loop_event \<Rightarrow> bool" where
  "failed_flush_or_point (Tick write_res batch_res) = (write_res \<noteq> None)"
| "failed_flush_or_point (Arrive pt) = True"

subsection \<open>The health-check loop\<close>

text \<open>
  The goroutine started by \<open>newStatsSender\<close>: one iteration per tick of the ping ticker.
  An event carries what the sink answers on that tick: the result of \<open>sender.client.Ping\<close>
  and, if the iteration reconnects, the results of \<open>NewHTTPClient\<close> and of the ping inside
  \<open>newClient\<close>. \<open>closed\<close> lists the handles on which \<open>Close\<close> was called, in order.
\<close>

datatype ping_event = PingTick "error option" "error + client" "error option"

record ping_state =
  client :: "client option"
  lastPingError :: "error option"
  closed :: "client list"

fun ping_step :: "ping_event \<Rightarrow> ping_state \<Rightarrow> panic + ping_state" where
  "ping_step (PingTick ping_res http_res ping2_res) s =
     (case client s of
        None \<Rightarrow> Inl NilPointerDereference
      | Some old \<Rightarrow>
          (case ping_res of
             Some err \<Rightarrow> Inr (s\<lparr>lastPingError := Some err\<rparr>)
           | None \<Rightarrow>
               if lastPingError s \<noteq> None then
                 (case newClient http_res ping2_res of
                    (new, None) \<Rightarrow>
                      Inr (s\<lparr>closed := closed s @ [old], client := new, lastPingError := None\<rparr>)
                  | (new, Some err) \<Rightarrow> Inr s)
               else Inr s))"

fun ping_loop :: "ping_event list \<Rightarrow> ping_state \<Rightarrow> panic + ping_state" where
  "ping_loop [] s = Inr s"
| "ping_loop (e # es) s = (case ping_step e s of Inl p \<Rightarrow> Inl p | Inr s' \<Rightarrow> ping_loop es s')"

fun ping_failed :: "ping_event \<Rightarrow> bool" where
  "ping_failed (PingTick ping_res http_res ping2_res) = (ping_res \<noteq> None)"

subsection \<open>onNewPoint and the batch loop\<close>

text \<open>
  \<open>onNewPoint\<close> runs in the collector's goroutine, inside the callback; the batch loop runs
  in its own goroutine. The channel \<open>pc\<close> is made without a buffer, so the send
  \<open>r.pc <- pt\<close> completes only together with the receive \<open>pt := <-r.pc\<close>, which the batch
  loop does at its \<open>select\<close> and nowhere else. To see where the loop stands, a flush tick
  is split in two steps: \<open>FlushBegin\<close>, where the loop takes the tick and, with a batch that
  is not empty, enters \<open>client.Write\<close>; and \<open>FlushEnd\<close>, where \<open>client.Write\<close> returns with
  the sink's answer and the iteration is finished as \<open>loop_step\<close> describes.

  \<open>CallOnNewPoint\<close> carries the result of \<open>influxDBClient.NewPoint\<close>. \<open>sending\<close> is the point
  of a call that stands at the send; \<open>calls_returned\<close> counts the calls of \<open>onNewPoint\<close>
  that have returned. \<open>push_step\<close> is \<open>None\<close> for a step that cannot be taken in the state.
\<close>

datatype 'p push_event =
  CallOnNewPoint "error + 'p" | ReceivePoint | FlushBegin | FlushEnd "error option" "error option"

record 'p push_state =
  batch_loop :: "'p loop_state"
  in_Write :: bool
  sending :: "'p option"
  calls_returned :: nat

fun push_step :: "'p push_event \<Rightarrow> 'p push_state \<Rightarrow> (panic + 'p push_state) option" where
  "push_step (CallOnNewPoint res) s =
     (if sending s \<noteq> None then None
      else
        (case res of
           Inl err \<Rightarrow>
             (case Println (loop_logger (batch_loop s)) (Wrap err ''error while creating point'')
                     (loop_log (batch_loop s)) of
                Inl p \<Rightarrow> Some (Inl p)
              | Inr out \<Rightarrow>
                  Some (Inr (s\<lparr>batch_loop := (batch_loop s)\<lparr>loop_log := out\<rparr>,
                                calls_returned := calls_returned s + 1\<rparr>)))
         | Inr pt \<Rightarrow> Some (Inr (s\<lparr>sending := Some pt\<rparr>))))"
| "push_step ReceivePoint s =
     (if in_Write s then None
      else
        (case sending s of
           None \<Rightarrow> None
         | Some pt \<Rightarrow>
             (case loop_step (Arrive pt) (batch_loop s) of
                Inl p \<Rightarrow> Some (Inl p)
              | Inr b \<Rightarrow>
                  Some (Inr (s\<lparr>batch_loop := b, sending := None,
                                calls_returned := calls_returned s + 1\<rparr>)))))"
| "push_step FlushBegin s =
     (if in_Write s then None
      else
        (case points (batch_loop s) of
           None \<Rightarrow> Some (Inl NilPointerDereference)
         | Some pts \<Rightarrow> if pts = [] then Some (Inr s) else Some (Inr (s\<lparr>in_Write := True\<rparr>))))"
| "push_step (FlushEnd write_res batch_res) s =
     (if \<not> in_Write s then None
      else
        (case loop_step (Tick write_res batch_res) (batch_loop s) of
           Inl p \<Rightarrow> Some (Inl p)
         | Inr b \<Rightarrow> Some (Inr (s\<lparr>batch_loop := b, in_Write := False\<rparr>))))"

fun push_run :: "'p push_event list \<Rightarrow> 'p push_state \<Rightarrow> (panic + 'p push_state) option" where
  "push_run [] s = Some (Inr s)"
| "push_run (e # es) s =
     (case push_step e s of
        None \<Rightarrow> None
      | Some (Inl p) \<Rightarrow> Some (Inl p)
      | Some (Inr s') \<Rightarrow> push_run es s')"

definition push_start :: "'p statsSender \<Rightarrow> 'p push_state" where
  "push_start sd =
     \<lparr> batch_loop = loop_start sd, in_Write = False, sending = None, calls_returned = 0 \<rparr>"

text \<open>A sender as a successful start-up leaves it: a client, a logger, an empty batch.\<close>

definition sender_started :: "nat statsSender" where
  "sender_started = \<lparr> sender_config = Some 0, sender_logger = Some DefaultLogger,
     sender_client = Some 1, sender_points = Some [] \<rparr>"

section \<open>The collector's timer loop\<close>

text \<open>
  \<open>Collector.Run\<close> is one goroutine; the ticker and whoever closes \<open>Done\<close> run beside it.
  \<open>Run\<close> first makes the ticker, and \<open>time.NewTicker\<close> panics unless \<open>PauseDur\<close> is
  positive. The state holds where the goroutine stands (\<open>Waiting\<close> in the \<open>select\<close>,
  \<open>InCallback\<close>, \<open>Returned\<close>, or \<open>Panicked\<close>), whether a tick is waiting in the ticker's
  channel, whether \<open>Done\<close> has been closed, and the arguments of the callback invocations
  so far. Two counters belong to the ticker: the ticks that have elapsed, and those among
  them that it has dropped.

  The events are the steps of the three parties. The ticker's channel holds one tick: a
  tick that elapses while one is waiting is dropped (\<open>time.Ticker\<close>). A \<open>select\<close> takes any
  one of its cases that can proceed: the tick case when a tick is waiting, the \<open>Done\<close> case
  when \<open>Done\<close> is a channel that has been closed (a nil \<open>Done\<close> is never ready). \<open>SelectTick\<close>
  carries what the runtime reports to \<open>CollectStats\<close> at that moment. \<open>Run_step\<close> is \<open>None\<close>
  for a step that cannot be taken in the state; after a panic there is no step.
\<close>

datatype run_phase = Waiting | InCallback | Returned | Panicked panic

datatype run_event = TickElapsed | CloseDone | SelectTick runtime_env | CallbackReturn | SelectDone

record run_state =
  phase :: run_phase
  tick_waiting :: bool
  done_closed :: bool
  invoked :: "Fields list"
  elapsed :: nat
  dropped :: nat

fun has_panicked :: "run_phase \<Rightarrow> bool" where
  "has_panicked (Panicked p) = True"
| "has_panicked ph = False"

text \<open>The state in which \<open>Run\<close> reaches its loop: \<open>tickCh := time.NewTicker(c.PauseDur).C\<close>.\<close>

definition Run_start :: "'s Collector \<Rightarrow> run_state" where
  "Run_start c =
     \<lparr> phase = (if 0 <s PauseDur c then Waiting else Panicked NonPositiveTickerInterval),
       tick_waiting = False, done_closed = False, invoked = [], elapsed = 0, dropped = 0 \<rparr>"

fun Run_step :: "'s Collector \<Rightarrow> run_event \<Rightarrow> run_state \<Rightarrow> run_state option" where
  "Run_step c TickElapsed s =
     (if has_panicked (phase s) then None
      else Some (s\<lparr>elapsed := elapsed s + 1,
                    dropped := dropped s + (if tick_waiting s then 1 else 0),
                    tick_waiting := True\<rparr>))"
| "Run_step c CloseDone s =
     (if \<not> has_panicked (phase s) \<and> Done c \<noteq> None \<and> \<not> done_closed s
      then Some (s\<lparr>done_closed := True\<rparr>) else None)"
| "Run_step c (SelectTick rt) s =
     (if phase s = Waiting \<and> tick_waiting s then
        (case CollectStats c rt of
           Inl p \<Rightarrow> Some (s\<lparr>tick_waiting := False, phase := Panicked p\<rparr>)
         | Inr fs \<Rightarrow>
             Some (s\<lparr>tick_waiting := False, phase := InCallback, invoked := invoked s @ [fs]\<rparr>))
      else None)"
| "Run_step c CallbackReturn s =
     (if phase s = InCallback then Some (s\<lparr>phase := Waiting\<rparr>) else None)"
| "Run_step c SelectDone s =
     (if phase s = Waiting \<and> Done c \<noteq> None \<and> done_closed s
      then Some (s\<lparr>phase := Returned\<rparr>) else None)"

fun Run :: "'s Collector \<Rightarrow> run_event list \<Rightarrow> run_state \<Rightarrow> run_state option" where
  "Run c [] s = Some s"
| "Run c (e # es) s = (case Run_step c e s of None \<Rightarrow> None | Some s' \<Rightarrow> Run c es s')"

text \<open>
  The schedule of a clock that is stepped by hand: each tick elapses, is taken, and its
  callback returns before the next tick elapses. One runtime report per tick.
\<close>

fun prompt_ticks :: "runtime_env list \<Rightarrow> run_event list" where
  "prompt_ticks [] = []"
| "prompt_ticks (rt # rts) = TickElapsed # SelectTick rt # CallbackReturn # prompt_ticks rts"

text \<open>
  What holds of every state the loop reaches: each tick that has elapsed has been handed to
  one callback invocation, or has been dropped by the ticker, or is the one still waiting;
  and only a \<open>Done\<close> that is a channel has been closed.
\<close>

definition Run_inv :: "'s Collector \<Rightarrow> run_state \<Rightarrow> bool" where
  "Run_inv c s \<longleftrightarrow>
     elapsed s = length (invoked s) + dropped s + (if tick_waiting s then 1 else 0) \<and>
     (done_closed s \<longrightarrow> Done c \<noteq> None)"

text \<open>A runtime with all counters at zero, and a collector whose \<open>Done\<close> channel is set.\<close>

definition MemStats_zero :: MemStats where
  "MemStats_zero = \<lparr> m_Alloc = 0, m_TotalAlloc = 0, m_Sys = 0, m_Lookups = 0, m_Mallocs = 0,
     m_Frees = 0, m_HeapAlloc = 0, m_HeapSys = 0, m_HeapIdle = 0, m_HeapInuse = 0,
     m_HeapReleased = 0, m_HeapObjects = 0, m_StackInuse = 0, m_StackSys = 0,
     m_MSpanInuse = 0, m_MSpanSys = 0, m_MCacheInuse = 0, m_MCacheSys = 0, m_OtherSys = 0,
     m_GCSys = 0, m_NextGC = 0, m_LastGC = 0, m_PauseTotalNs = 0, m_PauseNs = (\<lambda>i. 0),
     m_NumGC = 0, m_GCCPUFraction = 0 \<rparr>"

definition runtime_idle :: runtime_env where
  "runtime_idle = \<lparr> ReadMemStats = MemStats_zero, NumCPU = 4, NumGoroutine_rt = 2,
     NumCgoCall_rt = 1, GOOS = ''linux'', GOARCH = ''amd64'', Version_rt = ''go1.7.4'' \<rparr>"

definition collector_with_Done :: "unit Collector" where
  "collector_with_Done = (New None)\<lparr>Done := Some 0\<rparr>"

section \<open>The snapshot: ring-buffer index, enable flags, rendered point\<close>

lemma pause_index_lt: "pause_index n < 256"
  by (simp add: pause_index_def unat_mod)

lemma pause_index_nat: "pause_index n = (unat n + 255) mod 256"
proof -
  have "(256::nat) dvd 2 ^ 32" by simp
  then have "(unat n + 255) mod 2 ^ 32 mod 256 = (unat n + 255) mod 256"
    by (rule mod_mod_cancel)
  then show ?thesis
    by (simp add: pause_index_def unat_mod unat_word_ariths)
qed

lemma pause_index_succ: "pause_index (n + 1) = unat (n mod 256)"
proof -
  have "(256::nat) dvd 2 ^ 32" by simp
  then have "(unat n + 256) mod 2 ^ 32 mod 256 = (unat n + 256) mod 256"
    by (rule mod_mod_cancel)
  then have "unat ((n + 256) mod 256) = unat n mod 256"
    by (simp add: unat_mod unat_word_ariths)
  then show ?thesis
    by (simp add: pause_index_def unat_mod add.assoc)
qed

lemma collectMemStats_Inr:
  "collectMemStats rt f =
     Inr (f\<lparr> Alloc := m_Alloc (ReadMemStats rt), TotalAlloc := m_TotalAlloc (ReadMemStats rt),
            Sys := m_Sys (ReadMemStats rt), Lookups := m_Lookups (ReadMemStats rt),
            Mallocs := m_Mallocs (ReadMemStats rt), Frees := m_Frees (ReadMemStats rt),
            HeapAlloc := m_HeapAlloc (ReadMemStats rt), HeapSys := m_HeapSys (ReadMemStats rt),
            HeapIdle := m_HeapIdle (ReadMemStats rt), HeapInuse := m_HeapInuse (ReadMemStats rt),
            HeapReleased := m_HeapReleased (ReadMemStats rt),
            HeapObjects := m_HeapObjects (ReadMemStats rt),
            StackInuse := m_StackInuse (ReadMemStats rt), StackSys := m_StackSys (ReadMemStats rt),
            MSpanInuse := m_MSpanInuse (ReadMemStats rt), MSpanSys := m_MSpanSys (ReadMemStats rt),
            MCacheInuse := m_MCacheInuse (ReadMemStats rt),
            MCacheSys := m_MCacheSys (ReadMemStats rt),
            OtherSys := m_OtherSys (ReadMemStats rt),
            GCSys := m_GCSys (ReadMemStats rt), NextGC := m_NextGC (ReadMemStats rt),
            LastGC := m_LastGC (ReadMemStats rt),
            PauseTotalNs := m_PauseTotalNs (ReadMemStats rt),
            PauseNs := m_PauseNs (ReadMemStats rt) (pause_index (m_NumGC (ReadMemStats rt))),
            NumGC := m_NumGC (ReadMemStats rt),
            GCCPUFraction := m_GCCPUFraction (ReadMemStats rt) \<rparr>)"
  by (simp add: collectMemStats_def index256_def pause_index_lt Let_def)

text \<open>
  Claim C10. The index \<open>(m.NumGC+255)%256\<close> lies in \<open>0..255\<close> for every \<open>uint32\<close>
  value of \<open>NumGC\<close>, and the wrap-around of the addition at \<open>2^32\<close> does not change it;
  so \<open>collectMemStats\<close> never panics and returns, in \<open>PauseNs\<close>, the slot at that index.
  That slot holds the pause of the most recently completed cycle: after the runtime has
  recorded a cycle with pause \<open>pause\<close>, \<open>collectMemStats\<close> returns exactly \<open>pause\<close>, also
  when \<open>NumGC\<close> wraps from \<open>2^32 - 1\<close> to \<open>0\<close>.
\<close>

theorem PauseNs_index_in_bounds:
  "pause_index n < 256 \<and> pause_index n = (unat n + 255) mod 256 \<and>
   (\<exists>f'. collectMemStats rt f = Inr f' \<and>
         PauseNs f' = m_PauseNs (ReadMemStats rt) (pause_index (m_NumGC (ReadMemStats rt)))) \<and>
   (\<exists>f'. collectMemStats (rt\<lparr>ReadMemStats := runtime_gc_cycle pause (ReadMemStats rt)\<rparr>) f = Inr f'
         \<and> PauseNs f' = pause)"
  by (simp add: pause_index_lt pause_index_nat [symmetric] collectMemStats_Inr runtime_gc_cycle_def
      pause_index_succ)

lemma CollectStats_Inr:
  "CollectStats c rt =
     Inr ((if EnableCPU c then collectCPUStats rt else id)
            (if EnableMem c then projr (collectMemStats rt Fields_zero) else Fields_zero)
          \<lparr> Goos := GOOS rt, Goarch := GOARCH rt, Version := Version_rt rt \<rparr>)"
  by (simp add: CollectStats_def collectMemStats_Inr Let_def)

text \<open>
  Claim C6. With \<open>EnableCPU\<close> false, \<open>CollectStats\<close> returns a snapshot whose three CPU
  fields are zero; with \<open>EnableCPU\<close> true they are what the runtime reports. With
  \<open>EnableMem\<close> false all memory fields are zero; with \<open>EnableMem\<close> true each of them is the
  field of the runtime's \<open>MemStats\<close> that the source assigns to it, \<open>PauseNs\<close> being the
  entry of the pause buffer at \<open>(NumGC+255)%256\<close>. Either flag leaves the other group as
  it is. In every case \<open>CollectStats\<close> returns (it does not panic).
\<close>

theorem CollectStats_enable_flags:
  "(\<exists>f g. CollectStats (c\<lparr>EnableCPU := False\<rparr>) rt = Inr f \<and>
          CollectStats (c\<lparr>EnableCPU := True\<rparr>) rt = Inr g \<and>
          cpu_fields f = (0, 0, 0) \<and>
          cpu_fields g = (NumCPU rt, NumGoroutine_rt rt, NumCgoCall_rt rt) \<and>
          mem_fields f = mem_fields g) \<and>
   (\<exists>f g h. CollectStats (c\<lparr>EnableMem := False\<rparr>) rt = Inr f \<and>
          CollectStats (c\<lparr>EnableMem := True\<rparr>) rt = Inr g \<and>
          collectMemStats rt Fields_zero = Inr h \<and>
          mem_fields f = (replicate 24 0, 0, 0) \<and>
          mem_fields g = mem_fields h \<and>
          mem_fields g =
            ([m_Alloc (ReadMemStats rt), m_TotalAlloc (ReadMemStats rt), m_Sys (ReadMemStats rt),
              m_Lookups (ReadMemStats rt), m_Mallocs (ReadMemStats rt),
              m_Frees (ReadMemStats rt),
              m_HeapAlloc (ReadMemStats rt), m_HeapSys (ReadMemStats rt),
              m_HeapIdle (ReadMemStats rt), m_HeapInuse (ReadMemStats rt),
              m_HeapReleased (ReadMemStats rt), m_HeapObjects (ReadMemStats rt),
              m_StackInuse (ReadMemStats rt), m_StackSys (ReadMemStats rt),
              m_MSpanInuse (ReadMemStats rt), m_MSpanSys (ReadMemStats rt),
              m_MCacheInuse (ReadMemStats rt), m_MCacheSys (ReadMemStats rt),
              m_OtherSys (ReadMemStats rt),
              m_GCSys (ReadMemStats rt), m_NextGC (ReadMemStats rt),
              m_LastGC (ReadMemStats rt), m_PauseTotalNs (ReadMemStats rt),
              m_PauseNs (ReadMemStats rt) (pause_index (m_NumGC (ReadMemStats rt)))],
             m_NumGC (ReadMemStats rt), m_GCCPUFraction (ReadMemStats rt)) \<and>
          cpu_fields f = cpu_fields g)"
  apply (rule conjI)
   apply (simp add: CollectStats_Inr)
   apply (simp add: collectMemStats_Inr collectCPUStats_def cpu_fields_def mem_fields_def Fields_zero_def)
  apply (simp add: CollectStats_Inr)
  apply (simp add: collectMemStats_Inr collectCPUStats_def cpu_fields_def mem_fields_def Fields_zero_def eval_nat_numeral)
  done

lemma dom_upd_Some: "dom (m(k \<mapsto> v)) = insert k (dom m)"
  by simp

lemma dom_Values: "dom (Values f) = set json_keys"
  unfolding Values_def json_keys_def
  apply (simp only: dom_upd_Some dom_empty list.set) 
  apply (rule set_eqI)
  apply (simp only: insert_iff empty_iff)
  apply (rule iffI; elim disjE; simp)
  done

lemma dom_Tags: "dom (Tags f) = {''go.os'', ''go.arch'', ''go.version''}"
  by (auto simp: Tags_def)

text \<open>
  Claim C7. Every call of the function \<open>Metrics measurement\<close> returns a point whose name is
  the measurement, whose tags map has exactly the keys \<open>go.os\<close>, \<open>go.arch\<close> and
  \<open>go.version\<close>, bound to the runtime's operating system, architecture and version, and
  whose values map has exactly the documented keys (the \<open>json\<close> tags of \<open>Fields\<close>), among
  them \<open>cpu.goroutines\<close>, \<open>mem.lookups\<close> and \<open>mem.gc.count\<close>.
\<close>

theorem Metrics_point_keys:
  "\<exists>p. Metrics measurement rt = Inr p \<and> Point_Name p = measurement \<and>
       dom (Point_Tags p) = {''go.os'', ''go.arch'', ''go.version''} \<and>
       Point_Tags p ''go.os'' = Some (GOOS rt) \<and>
       Point_Tags p ''go.arch'' = Some (GOARCH rt) \<and>
       Point_Tags p ''go.version'' = Some (Version_rt rt) \<and>
       dom (Values (Point_Values p)) = set json_keys \<and>
       ''cpu.goroutines'' \<in> dom (Values (Point_Values p)) \<and>
       ''mem.lookups'' \<in> dom (Values (Point_Values p)) \<and>
       ''mem.gc.count'' \<in> dom (Values (Point_Values p))"
  apply (simp add: Metrics_def CollectStats_Inr dom_Tags dom_Values del: set_simps)
  apply (simp add: Tags_def json_keys_def)
  done

section \<open>Start-up: configuration resolution, nil configuration, unreachable sink\<close>

text \<open>
  Claim C9. With a nil configuration pointer, \<open>Config.init\<close> of package runstats does not
  panic: it fills in a fresh cell that only its own copy of the pointer refers to, so the
  caller's pointer is still nil and \<open>RunCollector\<close> panics at the next dereference
  (\<open>config.Addr\<close> in \<open>newStatsSender\<close>), whatever the sink answers. In package metrics
  the nil guard itself writes through the nil receiver, so \<open>Config.init\<close>, and with it
  \<open>RunCollector\<close>, panics at once. No defaulted configuration is substituted.
\<close>

theorem RunCollector_nil_config_panics:
  "Config_init hostname None h = Inr (h @ [init_fields hostname Config_zero]) \<and>
   RunCollector env None h = Inl NilPointerDereference \<and>
   Config_init_v2 hostname None h2 = Inl NilPointerDereference \<and>
   RunCollector_v2 hostname None h2 = Inl NilPointerDereference"
  by (simp add: Config_init_def RunCollector_def RunCollector_v2_def Config_init_v2_def
      new_cell_def load_def store_def newStatsSender_def)

lemma init_fields_durations:
  "CollectionInterval (init_fields hn c) =
     (if CollectionInterval c = 0 then defaultCollectionInterval else CollectionInterval c)"
  "BatchInterval (init_fields hn c) =
     (if BatchInterval c = 0 then defaultBatchInterval else BatchInterval c)"
  "PingInterval (init_fields hn c) =
     (if PingInterval c = 0 then defaultPingInterval else PingInterval c)"
  by (simp_all add: init_fields_def Let_def split: sum.splits)

lemma init_fields_v2_durations:
  "v2_CollectionInterval (init_fields_v2 hn c) =
     (if v2_CollectionInterval c = 0 then defaultCollectionInterval else v2_CollectionInterval c)"
  "v2_FlushInterval (init_fields_v2 hn c) =
     (if v2_FlushInterval c = 0 then defaultFlushInterval else v2_FlushInterval c)"
  by (simp_all add: init_fields_v2_def Let_def split: sum.splits)

lemma defaults_positive:
  "0 <s defaultCollectionInterval" "0 <s defaultBatchInterval" "0 <s defaultPingInterval"
  "0 < defaultFlushInterval"
  by (simp_all add: defaultCollectionInterval_def defaultBatchInterval_def
      defaultPingInterval_def defaultFlushInterval_def Second_def word_sless_alt)

lemma nonzero_nonneg_pos: "(d::64 word) \<noteq> 0 \<Longrightarrow> 0 \<le>s d \<Longrightarrow> 0 <s d"
  by (simp add: word_sless_eq)

lemma Config_init_Some:
  "load (Some a) h = Inr c \<Longrightarrow>
   Config_init hn (Some a) h = Inr (h[a := init_fields hn c]) \<and>
   load (Some a) (h[a := init_fields hn c]) = Inr (init_fields hn c)"
  by (auto simp: Config_init_def load_def store_def split: if_splits)

lemma Config_init_v2_Some:
  "load (Some a) h = Inr c \<Longrightarrow>
   Config_init_v2 hn (Some a) h = Inr (h[a := init_fields_v2 hn c]) \<and>
   load (Some a) (h[a := init_fields_v2 hn c]) = Inr (init_fields_v2 hn c)"
  by (auto simp: Config_init_v2_def load_def store_def split: if_splits)

text \<open>
  Claim C3, as stated, fails: the guards of \<open>Config.init\<close> compare with zero only, so a
  negative interval is kept. Here \<open>CollectionInterval = -1\<close> nanosecond is still \<open>-1\<close> after
  resolution.
\<close>

theorem Config_init_negative_interval_counterexample:
  "Config_init (Inr ''host'') (Some 0) [Config_zero\<lparr>CollectionInterval := - 1\<rparr>] =
     Inr [init_fields (Inr ''host'') (Config_zero\<lparr>CollectionInterval := - 1\<rparr>)] \<and>
   \<not> 0 <s CollectionInterval
           (init_fields (Inr ''host'') (Config_zero\<lparr>CollectionInterval := - 1\<rparr>))"
  by (simp add: Config_init_def load_def store_def init_fields_durations word_sless_alt)

text \<open>
  Claim C3, amended. For every non-nil configuration, \<open>Config.init\<close> returns, and
  afterwards every duration field holds its default if it was zero and its input value
  otherwise; the defaults are strictly positive (10 s, 60 s, 60 s, and 60000 ms for the
  unsigned \<open>FlushInterval\<close> of package metrics). So every duration field is non-zero after
  resolution, one whose input value was not negative is strictly positive, and a negative
  input value is kept as it is.
\<close>

theorem Config_init_durations:
  assumes "load config h = Inr c" and "load config2 h2 = Inr c2"
  shows "(\<exists>h' c'. Config_init hn config h = Inr h' \<and> load config h' = Inr c' \<and>
           CollectionInterval c' =
             (if CollectionInterval c = 0 then 10 * Second else CollectionInterval c) \<and>
           BatchInterval c' = (if BatchInterval c = 0 then 60 * Second else BatchInterval c) \<and>
           PingInterval c' = (if PingInterval c = 0 then 60 * Second else PingInterval c) \<and>
           CollectionInterval c' \<noteq> 0 \<and> BatchInterval c' \<noteq> 0 \<and> PingInterval c' \<noteq> 0 \<and>
           (0 \<le>s CollectionInterval c \<longrightarrow> 0 <s CollectionInterval c') \<and>
           (0 \<le>s BatchInterval c \<longrightarrow> 0 <s BatchInterval c') \<and>
           (0 \<le>s PingInterval c \<longrightarrow> 0 <s PingInterval c') \<and>
           (CollectionInterval c <s 0 \<longrightarrow> CollectionInterval c' = CollectionInterval c) \<and>
           (BatchInterval c <s 0 \<longrightarrow> BatchInterval c' = BatchInterval c) \<and>
           (PingInterval c <s 0 \<longrightarrow> PingInterval c' = PingInterval c)) \<and>
         (\<exists>h' c'. Config_init_v2 hn config2 h2 = Inr h' \<and> load config2 h' = Inr c' \<and>
           v2_CollectionInterval c' =
             (if v2_CollectionInterval c2 = 0 then 10 * Second else v2_CollectionInterval c2) \<and>
           v2_FlushInterval c' =
             (if v2_FlushInterval c2 = 0 then 60000 else v2_FlushInterval c2) \<and>
           v2_CollectionInterval c' \<noteq> 0 \<and> 0 < v2_FlushInterval c' \<and>
           (0 \<le>s v2_CollectionInterval c2 \<longrightarrow> 0 <s v2_CollectionInterval c') \<and>
           (v2_CollectionInterval c2 <s 0 \<longrightarrow>
              v2_CollectionInterval c' = v2_CollectionInterval c2)) \<and>
         0 <s 10 * Second \<and> 0 <s 60 * Second"
proof (intro conjI)
  from assms(1) obtain a where a: "config = Some a"
    by (cases config) (simp_all add: load_def)
  have nz: "defaultCollectionInterval \<noteq> 0" "defaultBatchInterval \<noteq> 0" "defaultPingInterval \<noteq> 0"
    using defaults_positive by auto
  have df: "defaultCollectionInterval = 10 * Second" "defaultBatchInterval = 60 * Second"
    "defaultPingInterval = 60 * Second"
    by (simp_all add: defaultCollectionInterval_def defaultBatchInterval_def
        defaultPingInterval_def)
  show "\<exists>h' c'. Config_init hn config h = Inr h' \<and> load config h' = Inr c' \<and>
           CollectionInterval c' =
             (if CollectionInterval c = 0 then 10 * Second else CollectionInterval c) \<and>
           BatchInterval c' = (if BatchInterval c = 0 then 60 * Second else BatchInterval c) \<and>
           PingInterval c' = (if PingInterval c = 0 then 60 * Second else PingInterval c) \<and>
           CollectionInterval c' \<noteq> 0 \<and> BatchInterval c' \<noteq> 0 \<and> PingInterval c' \<noteq> 0 \<and>
           (0 \<le>s CollectionInterval c \<longrightarrow> 0 <s CollectionInterval c') \<and>
           (0 \<le>s BatchInterval c \<longrightarrow> 0 <s BatchInterval c') \<and>
           (0 \<le>s PingInterval c \<longrightarrow> 0 <s PingInterval c') \<and>
           (CollectionInterval c <s 0 \<longrightarrow> CollectionInterval c' = CollectionInterval c) \<and>
           (BatchInterval c <s 0 \<longrightarrow> BatchInterval c' = BatchInterval c) \<and>
           (PingInterval c <s 0 \<longrightarrow> PingInterval c' = PingInterval c)"
    using Config_init_Some [of a h c hn] assms(1) a nz defaults_positive(1-3)
    unfolding df
    by (auto simp: init_fields_durations df nonzero_nonneg_pos)
next
  from assms(2) obtain a2 where a2: "config2 = Some a2"
    by (cases config2) (simp_all add: load_def)
  have nz2: "defaultFlushInterval \<noteq> 0" "defaultCollectionInterval \<noteq> 0"
    using defaults_positive by auto
  have df: "defaultCollectionInterval = 10 * Second" "defaultFlushInterval = 60000"
    by (simp_all add: defaultCollectionInterval_def defaultFlushInterval_def)
  show "\<exists>h' c'. Config_init_v2 hn config2 h2 = Inr h' \<and> load config2 h' = Inr c' \<and>
           v2_CollectionInterval c' =
             (if v2_CollectionInterval c2 = 0 then 10 * Second else v2_CollectionInterval c2) \<and>
           v2_FlushInterval c' =
             (if v2_FlushInterval c2 = 0 then 60000 else v2_FlushInterval c2) \<and>
           v2_CollectionInterval c' \<noteq> 0 \<and> 0 < v2_FlushInterval c' \<and>
           (0 \<le>s v2_CollectionInterval c2 \<longrightarrow> 0 <s v2_CollectionInterval c') \<and>
           (v2_CollectionInterval c2 <s 0 \<longrightarrow>
              v2_CollectionInterval c' = v2_CollectionInterval c2)"
    using Config_init_v2_Some [of a2 h2 c2 hn] assms(2) a2 nz2 defaults_positive(1,4)
    unfolding df
    by (auto simp: init_fields_v2_durations df nonzero_nonneg_pos word_greater_zero_iff)
next
  show "0 <s 10 * Second"
    using defaults_positive(1) by (simp add: defaultCollectionInterval_def)
next
  show "0 <s 60 * Second"
    using defaults_positive(2) by (simp add: defaultBatchInterval_def)
qed

text \<open>
  A configuration that sets only a collection interval of five seconds: that value is
  kept, the other intervals become the defaults.
\<close>

theorem Config_init_durations_witness:
  "load (Some 0) [Config_zero\<lparr>CollectionInterval := 5 * Second\<rparr>] =
     Inr (Config_zero\<lparr>CollectionInterval := 5 * Second\<rparr>) \<and>
   load (Some 0) [Config_v2_zero\<lparr>v2_FlushInterval := 250\<rparr>] =
     Inr (Config_v2_zero\<lparr>v2_FlushInterval := 250\<rparr>) \<and>
   (\<exists>h' c'. Config_init (Inr ''host'') (Some 0) [Config_zero\<lparr>CollectionInterval := 5 * Second\<rparr>]
              = Inr h' \<and>
       load (Some 0) h' = Inr c' \<and>
       CollectionInterval c' = 5 * Second \<and> BatchInterval c' = 60 * Second \<and>
       PingInterval c' = 60 * Second \<and> 0 <s CollectionInterval c') \<and>
   (\<exists>h' c'. Config_init_v2 (Inr ''host'') (Some 0) [Config_v2_zero\<lparr>v2_FlushInterval := 250\<rparr>]
              = Inr h' \<and>
       load (Some 0) h' = Inr c' \<and>
       v2_CollectionInterval c' = 10 * Second \<and> v2_FlushInterval c' = 250)"
proof -
  let ?c = "Config_zero\<lparr>CollectionInterval := 5 * Second\<rparr>"
  let ?c2 = "Config_v2_zero\<lparr>v2_FlushInterval := 250\<rparr>"
  have h1: "load (Some 0) [?c] = Inr ?c"
    by (simp add: load_def)
  have h2: "load (Some 0) [?c2] = Inr ?c2"
    by (simp add: load_def)
  have z: "CollectionInterval ?c = 5 * Second" "CollectionInterval ?c \<noteq> 0"
    "0 \<le>s CollectionInterval ?c"
    "BatchInterval ?c = 0" "PingInterval ?c = 0"
    "v2_CollectionInterval ?c2 = 0" "v2_FlushInterval ?c2 = 250" "v2_FlushInterval ?c2 \<noteq> 0"
    by (simp_all add: Config_zero_def Config_v2_zero_def Second_def word_sle_eq)
  from Config_init_durations [OF h1 h2, of "Inr ''host''"]
  obtain h' c' k' d' where
    "Config_init (Inr ''host'') (Some 0) [?c] = Inr h'" "load (Some 0) h' = Inr c'"
    "CollectionInterval c' =
       (if CollectionInterval ?c = 0 then 10 * Second else CollectionInterval ?c)"
    "BatchInterval c' = (if BatchInterval ?c = 0 then 60 * Second else BatchInterval ?c)"
    "PingInterval c' = (if PingInterval ?c = 0 then 60 * Second else PingInterval ?c)"
    "0 \<le>s CollectionInterval ?c \<longrightarrow> 0 <s CollectionInterval c'"
    "Config_init_v2 (Inr ''host'') (Some 0) [?c2] = Inr k'" "load (Some 0) k' = Inr d'"
    "v2_CollectionInterval d' =
       (if v2_CollectionInterval ?c2 = 0 then 10 * Second else v2_CollectionInterval ?c2)"
    "v2_FlushInterval d' = (if v2_FlushInterval ?c2 = 0 then 60000 else v2_FlushInterval ?c2)"
    by blast
  then show ?thesis
    using h1 h2 z by (simp del: One_nat_def)
qed

text \<open>
  Claim C2, at the failing input: the endpoint is well-formed, so \<open>NewHTTPClient\<close>
  succeeds, but the sink does not answer and the initial ping fails. \<open>newClient\<close> returns
  the client with a nil error, and \<open>RunCollector\<close> returns nil with the health-check loop,
  the batch loop and the collector loop started.
\<close>

theorem RunCollector_ping_failure_returns_nil:
  "newClient (Inr 1) (Some ''connection refused'') = (Some 1, None) \<and>
   (RunCollector env_ping_down (Some 0) [Config_zero] :: panic + nat startup) =
     Inr \<lparr> returned = None,
           sender = Some \<lparr> sender_config = Some 0, sender_logger = Some DefaultLogger,
                           sender_client = Some 1, sender_points = Some [] \<rparr>,
           started = [PingLoop, BatchLoop (60 * Second),
                      CollectorLoop (10 * Second) True True],
           closed_clients = [], logged = [] \<rparr>"
  by (simp add: newClient_def RunCollector_def env_ping_down_def Config_init_def load_def store_def
     newStatsSender_def queryDB_def newBatch_def init_fields_def Config_zero_def Let_def
     defaultCollectionInterval_def defaultBatchInterval_def)

section \<open>The batch loop and the health-check loop\<close>

lemma init_fields_Logger: "Logger (init_fields hn c) \<noteq> None"
  by (simp add: init_fields_def Let_def split: sum.splits)

text \<open>
  The sender that a successful start-up hands to the batch loop has a logger and an empty,
  non-nil batch.
\<close>

lemma RunCollector_sender:
  assumes "RunCollector env config h = Inr st" and "sender st = Some sd"
  shows "loop_logger (loop_start sd) \<noteq> None \<and> points (loop_start sd) = Some []"
proof -
  from assms(1) obtain a where a: "config = Some a"
    by (cases config)
      (simp_all add: RunCollector_def Config_init_def new_cell_def load_def store_def
        newStatsSender_def)
  from assms(1) a obtain c where c: "load (Some a) h = Inr c"
    by (cases "load (Some a) h") (simp_all add: RunCollector_def Config_init_def)
  have i: "Config_init (Hostname env) (Some a) h = Inr (h[a := init_fields (Hostname env) c])"
    "load (Some a) (h[a := init_fields (Hostname env) c]) = Inr (init_fields (Hostname env) c)"
    using Config_init_Some [OF c] by simp_all
  show ?thesis
    using assms a i init_fields_Logger [of "Hostname env" c]
    by (auto simp: RunCollector_def newStatsSender_def newBatch_def Println_def loop_start_def
        split: sum.splits option.splits prod.splits if_splits)
qed

lemma loop_append:
  "loop (xs @ ys) r = (case loop xs r of Inl p \<Rightarrow> Inl p | Inr r' \<Rightarrow> loop ys r')"
  by (induction xs arbitrary: r) (auto split: sum.splits)

lemma loop_step_no_delivery:
  assumes "points r = Some b" and "loop_logger r = Some l" and "failed_flush_or_point e"
  shows "\<exists>r'. loop_step e r = Inr r' \<and> points r' = Some (b @ enqueued [e]) \<and>
           delivered r' = delivered r \<and> loop_logger r' = Some l"
  using assms by (cases e) (auto simp: Println_def)

lemma loop_no_delivery:
  assumes "points r = Some b" and "loop_logger r = Some l"
    and "\<forall>e\<in>set evs. failed_flush_or_point e"
  shows "\<exists>r'. loop evs r = Inr r' \<and> points r' = Some (b @ enqueued evs) \<and>
           delivered r' = delivered r \<and> loop_logger r' = Some l"
  using assms
proof (induction evs arbitrary: r b)
  case Nil
  then show ?case by simp
next
  case (Cons e evs)
  from Cons.prems obtain r1 where r1: "loop_step e r = Inr r1"
    "points r1 = Some (b @ enqueued [e])" "delivered r1 = delivered r" "loop_logger r1 = Some l"
    using loop_step_no_delivery [of r b l e] by auto
  from Cons.IH [OF r1(2) r1(4)] Cons.prems(3)
  obtain r' where "loop evs r1 = Inr r'" "points r' = Some ((b @ enqueued [e]) @ enqueued evs)"
    "delivered r' = delivered r1" "loop_logger r' = Some l"
    by auto
  moreover have "enqueued [e] @ enqueued evs = enqueued (e # evs)"
    by (cases e) simp_all
  ultimately show ?case using r1 by simp
qed

lemma loop_step_skip_empty:
  "points r = Some [] \<Longrightarrow> loop_step (Tick write_res batch_res) r = Inr r"
  by simp

lemma flush_succeeds:
  assumes "points r = Some b" and "loop_logger r = Some l"
  shows "\<exists>r'. loop_step (Tick None batch_res) r = Inr r' \<and>
           delivered r' = delivered r @ (if b = [] then [] else [b]) \<and>
           points r' = (if b = [] then Some [] else if batch_res = None then Some [] else None)"
  using assms by (auto simp: newBatch_def Println_def Let_def split: option.splits)

text \<open>
  Claim C1. Take the batch loop in any state with a batch \<open>b\<close> (after a successful flush
  \<open>b\<close> is empty) and a logger. Let any number of points arrive and any number of flush
  attempts fail, in any order. Then nothing is delivered, and the batch is \<open>b\<close> followed
  by all the points that arrived, in their order. The first flush that succeeds delivers
  exactly that batch, as one write (when it is empty the tick is skipped and nothing is
  written). No point is dropped by a failed flush.
\<close>

theorem loop_failed_flush_keeps_points:
  assumes "points r = Some b" and "loop_logger r = Some l"
    and "\<forall>e\<in>set evs. failed_flush_or_point e"
  shows "\<exists>r1 r2. loop evs r = Inr r1 \<and> points r1 = Some (b @ enqueued evs) \<and>
           delivered r1 = delivered r \<and>
           loop (evs @ [Tick None batch_res]) r = Inr r2 \<and>
           delivered r2 =
             delivered r @ (if b @ enqueued evs = [] then [] else [b @ enqueued evs])"
proof -
  from loop_no_delivery [OF assms] obtain r1 where r1: "loop evs r = Inr r1"
    "points r1 = Some (b @ enqueued evs)" "delivered r1 = delivered r" "loop_logger r1 = Some l"
    by blast
  from flush_succeeds [OF r1(2) r1(4), of batch_res] obtain r2 where
    "loop_step (Tick None batch_res) r1 = Inr r2"
    "delivered r2 = delivered r1 @ (if b @ enqueued evs = [] then [] else [b @ enqueued evs])"
    by blast
  with r1 show ?thesis
    by (simp add: loop_append)
qed

text \<open>Two failed flushes among three points, then a success: one batch with all three.\<close>

theorem loop_failed_flush_keeps_points_witness:
  "\<exists>r2. loop [Arrive (1::nat), Tick (Some ''timeout'') None, Arrive 2, Tick (Some ''timeout'') None,
              Arrive 3, Tick None None]
          \<lparr> points = Some [], loop_logger = Some DefaultLogger, delivered = [], loop_log = [] \<rparr>
        = Inr r2 \<and> delivered r2 = [[1, 2, 3]]"
proof -
  let ?r = "\<lparr> points = Some ([]::nat list), loop_logger = Some DefaultLogger, delivered = [],
             loop_log = [] \<rparr>"
  let ?evs = "[Arrive (1::nat), Tick (Some ''timeout'') None, Arrive 2,
               Tick (Some ''timeout'') None, Arrive 3]"
  have h1: "points ?r = Some []" and h2: "loop_logger ?r = Some DefaultLogger"
    and h3: "\<forall>e\<in>set ?evs. failed_flush_or_point e"
    by simp_all
  show ?thesis
    using loop_failed_flush_keeps_points [OF h1 h2 h3, of None] by auto
qed

lemma ping_loop_append:
  "ping_loop (xs @ ys) s = (case ping_loop xs s of Inl p \<Rightarrow> Inl p | Inr s' \<Rightarrow> ping_loop ys s')"
  by (induction xs arbitrary: s) (auto split: sum.splits)

lemma ping_loop_failing:
  assumes "client s = Some old" and "\<forall>e\<in>set fails. ping_failed e"
  shows "\<exists>s1. ping_loop fails s = Inr s1 \<and> client s1 = Some old \<and> closed s1 = closed s \<and>
           (fails \<noteq> [] \<longrightarrow> lastPingError s1 \<noteq> None)"
  using assms
proof (induction fails arbitrary: s rule: rev_induct)
  case Nil
  then show ?case by simp
next
  case (snoc e fails)
  then obtain s1 where s1: "ping_loop fails s = Inr s1" "client s1 = Some old"
    "closed s1 = closed s"
    by fastforce
  from snoc.prems(2) obtain err h p where e: "e = PingTick (Some err) h p"
    by (cases e) auto
  show ?case using s1 e by (simp add: ping_loop_append)
qed

lemma ping_loop_quiet:
  assumes "client s = Some cl" and "lastPingError s = None" and "\<forall>e\<in>set oks. \<not> ping_failed e"
  shows "ping_loop oks s = Inr s"
  using assms
proof (induction oks)
  case Nil
  then show ?case by simp
next
  case (Cons e oks)
  from Cons.prems(3) obtain h p where "e = PingTick None h p"
    by (cases e) auto
  with Cons show ?case by simp
qed

text \<open>
  Claim C5. The loop runs for a sender whose client \<open>NewHTTPClient\<close> has built at start-up
  from \<open>Addr\<close>, \<open>Username\<close> and \<open>Password\<close>; on a reconnect it is called with the same
  three values and returns a client again (\<open>Inr new\<close>). While the pings fail, the handle is
  not replaced and nothing is closed. At the first ping that then succeeds, the new
  client replaces the old handle and \<open>Close\<close> is called on the old handle, once; this is
  so whatever the ping inside \<open>newClient\<close> answers. Successful pings after that change
  nothing: one handle has been swapped in and one closed.
\<close>

theorem ping_loop_reconnect:
  assumes "client s = Some old" and "fails \<noteq> []" and "\<forall>e\<in>set fails. ping_failed e"
    and "\<forall>e\<in>set oks. \<not> ping_failed e"
  shows "\<exists>s1 s2.
           ping_loop fails s = Inr s1 \<and> client s1 = Some old \<and> closed s1 = closed s \<and>
           ping_loop (fails @ [PingTick None (Inr new) ping2]) s = Inr s2 \<and>
           client s2 = Some new \<and> closed s2 = closed s @ [old] \<and>
           ping_loop (fails @ PingTick None (Inr new) ping2 # oks) s = Inr s2"
proof -
  from ping_loop_failing [OF assms(1) assms(3)] assms(2) obtain s1 where
    s1: "ping_loop fails s = Inr s1" "client s1 = Some old" "closed s1 = closed s"
      "lastPingError s1 \<noteq> None"
    by blast
  let ?s2 = "s1\<lparr>closed := closed s1 @ [old], client := Some new, lastPingError := None\<rparr>"
  have step: "ping_step (PingTick None (Inr new) ping2) s1 = Inr ?s2"
    using s1 by (simp add: newClient_def)
  have "ping_loop oks ?s2 = Inr ?s2"
    by (rule ping_loop_quiet [OF _ _ assms(4)]) simp_all
  with step s1 show ?thesis
    by (simp add: ping_loop_append)
qed

text \<open>
  Two failed pings, a successful one with a reconnect, two more successful ones: the
  handle is \<open>2\<close> and only the old handle \<open>1\<close> has been closed.
\<close>

theorem ping_loop_reconnect_witness:
  "\<exists>s2. ping_loop [PingTick (Some ''timeout'') (Inr 7) None,
                   PingTick (Some ''timeout'') (Inr 8) None,
                   PingTick None (Inr 2) (Some ''timeout''),
                   PingTick None (Inr 3) None, PingTick None (Inr 4) None]
          \<lparr> client = Some 1, lastPingError = None, closed = [] \<rparr> = Inr s2 \<and>
        client s2 = Some 2 \<and> closed s2 = [1]"
proof -
  let ?s = "\<lparr> client = Some 1, lastPingError = None, closed = [] \<rparr>"
  let ?fails = "[PingTick (Some ''timeout'') (Inr 7) None, PingTick (Some ''timeout'') (Inr 8) None]"
  let ?oks = "[PingTick None (Inr 3) None, PingTick None (Inr 4) None]"
  have h1: "client ?s = Some 1" and h2: "?fails \<noteq> []" and h3: "\<forall>e\<in>set ?fails. ping_failed e"
    and h4: "\<forall>e\<in>set ?oks. \<not> ping_failed e"
    by simp_all
  from ping_loop_reconnect [OF h1 h2 h3 h4, of 2 "Some ''timeout''"]
  obtain s2 where "ping_loop (?fails @ PingTick None (Inr 2) (Some ''timeout'') # ?oks) ?s = Inr s2"
    and "client s2 = Some 2" and "closed s2 = closed ?s @ [1]"
    by blast
  then show ?thesis
    by (auto simp del: ping_loop.simps)
qed

section \<open>The hand-over from onNewPoint to the batch loop\<close>

text \<open>
  Claim C8, amended, for package runstats. A call of \<open>onNewPoint\<close> returns at once only
  when \<open>NewPoint\<close> fails; the error is logged and nothing is enqueued. Otherwise the call
  stands at the send on \<open>pc\<close> and has not returned. It returns with the receive at the
  batch loop's \<open>select\<close>, and at that moment the point is appended to the batch. While the
  batch loop is inside \<open>client.Write\<close> the receive cannot happen, and no step of the system
  is possible but the return of \<open>client.Write\<close>: the call lasts at least until the sink has
  answered the flush. Whatever the sink answers, the loop is then back at its \<open>select\<close>,
  the point has not been lost, and the receive that ends the call is possible.
\<close>

theorem onNewPoint_waits_for_batch_loop:
  assumes "points (batch_loop s) = Some pts" and "loop_logger (batch_loop s) = Some l"
  shows "(sending s = None \<longrightarrow>
            push_step (CallOnNewPoint (Inl err)) s =
              Some (Inr (s\<lparr>batch_loop := (batch_loop s)
                              \<lparr>loop_log := loop_log (batch_loop s) @
                                            [Wrap err ''error while creating point'']\<rparr>,
                            calls_returned := calls_returned s + 1\<rparr>)) \<and>
            push_step (CallOnNewPoint (Inr pt)) s = Some (Inr (s\<lparr>sending := Some pt\<rparr>))) \<and>
         (sending s = Some pt \<and> \<not> in_Write s \<longrightarrow>
            push_step ReceivePoint s =
              Some (Inr (s\<lparr>batch_loop := (batch_loop s)\<lparr>points := Some (pts @ [pt])\<rparr>,
                            sending := None, calls_returned := calls_returned s + 1\<rparr>))) \<and>
         (sending s = Some pt \<and> in_Write s \<longrightarrow>
            push_step ReceivePoint s = None \<and> push_step FlushBegin s = None \<and>
            push_step (CallOnNewPoint res) s = None \<and>
            (\<exists>s1. push_step (FlushEnd write_res batch_res) s = Some (Inr s1) \<and>
                  \<not> in_Write s1 \<and> sending s1 = Some pt \<and>
                  calls_returned s1 = calls_returned s \<and>
                  (\<exists>s2. push_step ReceivePoint s1 = Some (Inr s2) \<and> sending s2 = None \<and>
                        calls_returned s2 = calls_returned s + 1)))"
proof (intro conjI impI)
  assume "sending s = None"
  then show "push_step (CallOnNewPoint (Inl err)) s =
              Some (Inr (s\<lparr>batch_loop := (batch_loop s)
                              \<lparr>loop_log := loop_log (batch_loop s) @
                                            [Wrap err ''error while creating point'']\<rparr>,
                            calls_returned := calls_returned s + 1\<rparr>))"
    using assms by (simp add: Println_def)
next
  assume "sending s = None"
  then show "push_step (CallOnNewPoint (Inr pt)) s = Some (Inr (s\<lparr>sending := Some pt\<rparr>))"
    by simp
next
  assume "sending s = Some pt \<and> \<not> in_Write s"
  then show "push_step ReceivePoint s =
              Some (Inr (s\<lparr>batch_loop := (batch_loop s)\<lparr>points := Some (pts @ [pt])\<rparr>,
                            sending := None, calls_returned := calls_returned s + 1\<rparr>))"
    using assms by simp
next
  assume a: "sending s = Some pt \<and> in_Write s"
  then show "push_step ReceivePoint s = None" by simp
  from a show "push_step FlushBegin s = None" by simp
  from a show "push_step (CallOnNewPoint res) s = None" by simp
  have "\<exists>b. loop_step (Tick write_res batch_res) (batch_loop s) = Inr b"
    using assms by (auto simp: Println_def newBatch_def Let_def split: option.splits)
  then obtain b where b: "loop_step (Tick write_res batch_res) (batch_loop s) = Inr b" ..
  let ?s1 = "s\<lparr>batch_loop := b, in_Write := False\<rparr>"
  have 1: "push_step (FlushEnd write_res batch_res) s = Some (Inr ?s1)"
    using a b by simp
  have "\<exists>b2. loop_step (Arrive pt) b = Inr b2"
    by (cases "points b") simp_all
  then obtain b2 where "loop_step (Arrive pt) b = Inr b2" ..
  then have 2: "push_step ReceivePoint ?s1 =
      Some (Inr (?s1\<lparr>batch_loop := b2, sending := None,
                       calls_returned := calls_returned ?s1 + 1\<rparr>))"
    using a by simp
  show "\<exists>s1. push_step (FlushEnd write_res batch_res) s = Some (Inr s1) \<and>
                  \<not> in_Write s1 \<and> sending s1 = Some pt \<and>
                  calls_returned s1 = calls_returned s \<and>
                  (\<exists>s2. push_step ReceivePoint s1 = Some (Inr s2) \<and> sending s2 = None \<and>
                        calls_returned s2 = calls_returned s + 1)"
    using 1 2 a by (intro exI [of _ ?s1]) simp
qed

text \<open>
  A point is in the batch, a flush begins, a second call stands at the send; the write
  fails; then the point is received, and the batch holds both points.
\<close>

theorem onNewPoint_waits_for_batch_loop_witness:
  "\<exists>s1 s2.
     push_run [CallOnNewPoint (Inr 1), ReceivePoint, FlushBegin, CallOnNewPoint (Inr 2),
               FlushEnd (Some ''timeout'') None] (push_start sender_started) = Some (Inr s1) \<and>
     sending s1 = Some 2 \<and> calls_returned s1 = 1 \<and> \<not> in_Write s1 \<and>
     push_step ReceivePoint s1 = Some (Inr s2) \<and>
     points (batch_loop s2) = Some [1, 2] \<and> calls_returned s2 = 2 \<and> sending s2 = None"
proof -
  let ?b = "\<lparr> points = Some [1::nat], loop_logger = Some DefaultLogger, delivered = [],
              loop_log = [] \<rparr>"
  let ?s = "\<lparr> batch_loop = ?b, in_Write = True, sending = Some 2, calls_returned = 1 \<rparr>"
  have r: "push_run [CallOnNewPoint (Inr 1), ReceivePoint, FlushBegin, CallOnNewPoint (Inr 2)]
             (push_start sender_started) = Some (Inr ?s)"
    by (simp add: push_start_def loop_start_def sender_started_def)
  have h1: "points (batch_loop ?s) = Some [1]" and h2: "loop_logger (batch_loop ?s) = Some DefaultLogger"
    by simp_all
  from onNewPoint_waits_for_batch_loop
      [OF h1 h2, where pt = 2 and write_res = "Some ''timeout''" and batch_res = None]
  obtain s1 s2 where "push_step (FlushEnd (Some ''timeout'') None) ?s = Some (Inr s1)"
    "\<not> in_Write s1" "sending s1 = Some 2" "calls_returned s1 = calls_returned ?s"
    "push_step ReceivePoint s1 = Some (Inr s2)" "sending s2 = None"
    "calls_returned s2 = calls_returned ?s + 1"
    by auto
  then show ?thesis
    by (auto simp: push_start_def loop_start_def sender_started_def Println_def)
qed

text \<open>
  Claim C8, as stated, fails: the call is not a local enqueue that is independent of the
  batch loop and the sink. With the batch loop inside \<open>client.Write\<close>, a call of
  \<open>onNewPoint\<close> with a well-formed point stands at the send and cannot return: the receive
  is not possible in that state.
\<close>

theorem onNewPoint_blocked_during_flush_counterexample:
  "push_run [CallOnNewPoint (Inr 1), ReceivePoint, FlushBegin, CallOnNewPoint (Inr 2)]
     (push_start sender_started) =
     Some (Inr \<lparr> batch_loop = \<lparr> points = Some [1], loop_logger = Some DefaultLogger,
                                 delivered = [], loop_log = [] \<rparr>,
                  in_Write = True, sending = Some 2, calls_returned = 1 \<rparr>) \<and>
   push_step ReceivePoint
     \<lparr> batch_loop = \<lparr> points = Some [1::nat], loop_logger = Some DefaultLogger,
                      delivered = [], loop_log = [] \<rparr>,
       in_Write = True, sending = Some 2, calls_returned = 1 \<rparr> = None"
  by (simp add: push_start_def loop_start_def sender_started_def)

section \<open>The timer loop\<close>

lemma Run_append:
  "Run c (xs @ ys) s = (case Run c xs s of None \<Rightarrow> None | Some s' \<Rightarrow> Run c ys s')"
  by (induction xs arbitrary: s) (auto split: option.splits)

lemma Run_inv_start: "Run_inv c (Run_start c)"
  by (simp add: Run_inv_def Run_start_def)

lemma Run_step_inv: "Run_step c e s = Some s' \<Longrightarrow> Run_inv c s \<Longrightarrow> Run_inv c s'"
  by (cases e) (auto simp: Run_inv_def CollectStats_Inr split: if_splits)

lemma Run_inv: "Run c evs s = Some s' \<Longrightarrow> Run_inv c s \<Longrightarrow> Run_inv c s'"
proof (induction evs arbitrary: s)
  case Nil
  then show ?case by simp
next
  case (Cons e evs)
  then obtain s1 where s1: "Run_step c e s = Some s1" "Run c evs s1 = Some s'"
    by (auto split: option.splits)
  from Cons.IH [OF s1(2) Run_step_inv [OF s1(1) Cons.prems(2)]] show ?case .
qed

lemma Run_step_Returned:
  "Run_step c e s = Some s' \<Longrightarrow> phase s = Returned \<Longrightarrow>
   phase s' = Returned \<and> invoked s' = invoked s"
  by (cases e) (auto split: if_splits)

lemma Run_step_InCallback:
  "Run_step c e s = Some s' \<Longrightarrow> phase s = InCallback \<Longrightarrow> e \<noteq> CallbackReturn \<Longrightarrow>
   phase s' = InCallback \<and> invoked s' = invoked s"
  by (cases e) (auto split: if_splits)

lemma Run_Returned:
  "Run c evs s = Some s' \<Longrightarrow> phase s = Returned \<Longrightarrow>
   phase s' = Returned \<and> invoked s' = invoked s"
proof (induction evs arbitrary: s)
  case Nil
  then show ?case by simp
next
  case (Cons e evs)
  then obtain s1 where s1: "Run_step c e s = Some s1" "Run c evs s1 = Some s'"
    by (auto split: option.splits)
  from Run_step_Returned [OF s1(1) Cons.prems(2)] Cons.IH [OF s1(2)] show ?case by simp
qed

lemma Run_InCallback:
  "Run c evs s = Some s' \<Longrightarrow> phase s = InCallback \<Longrightarrow> CallbackReturn \<notin> set evs \<Longrightarrow>
   phase s' = InCallback \<and> invoked s' = invoked s"
proof (induction evs arbitrary: s)
  case Nil
  then show ?case by simp
next
  case (Cons e evs)
  then obtain s1 where s1: "Run_step c e s = Some s1" "Run c evs s1 = Some s'"
    by (auto split: option.splits)
  from Cons.prems(3) have "e \<noteq> CallbackReturn" "CallbackReturn \<notin> set evs" by auto
  with Run_step_InCallback [OF s1(1) Cons.prems(2)] Cons.IH [OF s1(2)] show ?case by simp
qed

lemma Run_prompt_ticks:
  assumes "phase s = Waiting" and "\<not> tick_waiting s"
  shows "Run c (prompt_ticks rts) s =
           Some (s\<lparr>invoked := invoked s @ map (\<lambda>rt. projr (CollectStats c rt)) rts,
                   elapsed := elapsed s + length rts\<rparr>)"
  using assms
proof (induction rts arbitrary: s)
  case Nil
  then show ?case by simp
next
  case (Cons rt rts)
  let ?s1 = "s\<lparr>invoked := invoked s @ [projr (CollectStats c rt)], elapsed := elapsed s + 1\<rparr>"
  have "Run c [TickElapsed, SelectTick rt, CallbackReturn] s = Some ?s1"
    using Cons.prems by (simp add: CollectStats_Inr)
  moreover have "phase ?s1 = Waiting" "\<not> tick_waiting ?s1"
    using Cons.prems by simp_all
  from Cons.IH [OF this]
  have "Run c (prompt_ticks rts) ?s1 =
          Some (s\<lparr>invoked := invoked s @ map (\<lambda>rt. projr (CollectStats c rt)) (rt # rts),
                  elapsed := elapsed s + length (rt # rts)\<rparr>)"
    by simp
  moreover have "prompt_ticks (rt # rts) = [TickElapsed, SelectTick rt, CallbackReturn] @ prompt_ticks rts"
    by simp
  ultimately show ?case
    by (simp only: Run_append option.case)
qed

text \<open>
  Claim C4, amended. \<open>Run\<close> with a \<open>PauseDur\<close> that is not positive panics in
  \<open>time.NewTicker\<close> before any invocation. Otherwise, in every execution, each tick that has
  elapsed has been handed to exactly one callback invocation, unless the ticker dropped it
  (it elapsed while an earlier tick was still waiting) or it is the one tick still
  waiting; a waiting tick can always be taken when the loop is at its \<open>select\<close>, and then
  the callback is invoked with the snapshot, and without a waiting tick the callback is
  not invoked. In particular, when every tick is taken and its callback returns before
  the next tick elapses, \<open>n\<close> ticks give exactly \<open>n\<close> invocations, one snapshot each.
  While an invocation is in progress, no step other than the callback's own return ends
  it, and that return is always possible. A \<open>select\<close> reached with \<open>Done\<close> closed can take
  the \<open>Done\<close> case, and then \<open>Run\<close> returns; before \<open>Done\<close> is closed it cannot. Once
  \<open>Run\<close> has returned, no step invokes the callback.
\<close>

theorem Run_callback_per_tick:
  assumes "Run c evs (Run_start c) = Some s" and "Run c evs2 s = Some s2"
  shows "elapsed s = length (invoked s) + dropped s + (if tick_waiting s then 1 else 0) \<and>
         (phase s = Waiting \<and> tick_waiting s \<longrightarrow>
            (\<exists>fs. CollectStats c rt = Inr fs \<and>
               Run c (evs @ [SelectTick rt]) (Run_start c) =
                 Some (s\<lparr>tick_waiting := False, phase := InCallback,
                         invoked := invoked s @ [fs]\<rparr>))) \<and>
         (phase s = Waiting \<and> \<not> tick_waiting s \<longrightarrow>
            Run c (evs @ [SelectTick rt]) (Run_start c) = None) \<and>
         (phase s = InCallback \<longrightarrow>
            Run c (evs @ [CallbackReturn]) (Run_start c) = Some (s\<lparr>phase := Waiting\<rparr>)) \<and>
         (phase s = InCallback \<and> CallbackReturn \<notin> set evs2 \<longrightarrow>
            phase s2 = InCallback \<and> invoked s2 = invoked s) \<and>
         (phase s = Waiting \<and> done_closed s \<longrightarrow>
            Run c (evs @ [SelectDone]) (Run_start c) = Some (s\<lparr>phase := Returned\<rparr>)) \<and>
         (\<not> done_closed s \<longrightarrow> Run c (evs @ [SelectDone]) (Run_start c) = None) \<and>
         (phase s = Returned \<longrightarrow> phase s2 = Returned \<and> invoked s2 = invoked s) \<and>
         (0 <s PauseDur c \<longrightarrow>
            (\<exists>s3. Run c (prompt_ticks rts) (Run_start c) = Some s3 \<and>
               map Inr (invoked s3) = map (CollectStats c) rts \<and>
               elapsed s3 = length rts \<and> dropped s3 = 0 \<and> \<not> tick_waiting s3)) \<and>
         (\<not> 0 <s PauseDur c \<longrightarrow>
            evs = [] \<and> phase s = Panicked NonPositiveTickerInterval \<and> invoked s = [])"
proof -
  have inv: "Run_inv c s"
    using Run_inv [OF assms(1) Run_inv_start] .
  have a: "elapsed s = length (invoked s) + dropped s + (if tick_waiting s then 1 else 0)"
    using inv by (simp add: Run_inv_def)
  have b: "phase s = Waiting \<and> tick_waiting s \<longrightarrow>
            (\<exists>fs. CollectStats c rt = Inr fs \<and>
               Run c (evs @ [SelectTick rt]) (Run_start c) =
                 Some (s\<lparr>tick_waiting := False, phase := InCallback,
                         invoked := invoked s @ [fs]\<rparr>))"
    using assms(1) by (simp add: Run_append CollectStats_Inr)
  have c: "phase s = Waiting \<and> \<not> tick_waiting s \<longrightarrow>
            Run c (evs @ [SelectTick rt]) (Run_start c) = None"
    using assms(1) by (simp add: Run_append)
  have d: "phase s = InCallback \<longrightarrow>
            Run c (evs @ [CallbackReturn]) (Run_start c) = Some (s\<lparr>phase := Waiting\<rparr>)"
    using assms(1) by (simp add: Run_append)
  have e: "phase s = InCallback \<and> CallbackReturn \<notin> set evs2 \<longrightarrow>
            phase s2 = InCallback \<and> invoked s2 = invoked s"
    using Run_InCallback [OF assms(2)] by blast
  have f: "phase s = Waiting \<and> done_closed s \<longrightarrow>
            Run c (evs @ [SelectDone]) (Run_start c) = Some (s\<lparr>phase := Returned\<rparr>)"
    using assms(1) inv by (simp add: Run_append Run_inv_def)
  have g: "\<not> done_closed s \<longrightarrow> Run c (evs @ [SelectDone]) (Run_start c) = None"
    using assms(1) by (simp add: Run_append)
  have h: "phase s = Returned \<longrightarrow> phase s2 = Returned \<and> invoked s2 = invoked s"
    using Run_Returned [OF assms(2)] by blast
  have i: "0 <s PauseDur c \<longrightarrow>
            (\<exists>s3. Run c (prompt_ticks rts) (Run_start c) = Some s3 \<and>
               map Inr (invoked s3) = map (CollectStats c) rts \<and>
               elapsed s3 = length rts \<and> dropped s3 = 0 \<and> \<not> tick_waiting s3)"
  proof
    assume "0 <s PauseDur c"
    then have "phase (Run_start c) = Waiting" "\<not> tick_waiting (Run_start c)"
      by (simp_all add: Run_start_def)
    from Run_prompt_ticks [OF this, of c rts] show
      "\<exists>s3. Run c (prompt_ticks rts) (Run_start c) = Some s3 \<and>
               map Inr (invoked s3) = map (CollectStats c) rts \<and>
               elapsed s3 = length rts \<and> dropped s3 = 0 \<and> \<not> tick_waiting s3"
      by (simp add: Run_start_def CollectStats_Inr)
  qed
  have j: "\<not> 0 <s PauseDur c \<longrightarrow>
            evs = [] \<and> phase s = Panicked NonPositiveTickerInterval \<and> invoked s = []"
  proof
    assume n: "\<not> 0 <s PauseDur c"
    have "Run_step c e (Run_start c) = None" for e
      using n by (cases e) (simp_all add: Run_start_def)
    then have "evs = []"
      using assms(1) by (cases evs) simp_all
    then show "evs = [] \<and> phase s = Panicked NonPositiveTickerInterval \<and> invoked s = []"
      using assms(1) n by (auto simp: Run_start_def)
  qed
  from a b c d e f g h i j show ?thesis by blast
qed

text \<open>
  Three ticks of a clock stepped by hand give three invocations; then \<open>Done\<close> is closed
  and \<open>Run\<close> returns, with the same three invocations.
\<close>

theorem Run_callback_per_tick_witness:
  "0 <s PauseDur collector_with_Done \<and>
   (\<exists>s s2. Run collector_with_Done
              (prompt_ticks [runtime_idle, runtime_idle, runtime_idle] @ [CloseDone])
              (Run_start collector_with_Done) = Some s \<and>
           Run collector_with_Done [SelectDone] s = Some s2 \<and>
           length (invoked s) = 3 \<and> elapsed s = 3 \<and> dropped s = 0 \<and>
           phase s2 = Returned \<and> invoked s2 = invoked s)"
proof -
  let ?c = "collector_with_Done"
  let ?evs = "prompt_ticks [runtime_idle, runtime_idle, runtime_idle] @ [CloseDone]"
  have p: "0 <s PauseDur ?c"
    by (simp add: collector_with_Done_def New_def Second_def word_sless_alt)
  have "\<exists>s. Run ?c ?evs (Run_start ?c) = Some s \<and> phase s = Waiting \<and> done_closed s \<and>
          \<not> tick_waiting s \<and> dropped s = 0 \<and> elapsed s = 3"
    using p by (simp add: Run_start_def CollectStats_Inr collector_with_Done_def)
  then obtain s where h1: "Run ?c ?evs (Run_start ?c) = Some s"
    and w: "phase s = Waiting" "done_closed s" "\<not> tick_waiting s" "dropped s = 0" "elapsed s = 3"
    by blast
  have d: "Done ?c \<noteq> None"
    by (simp add: collector_with_Done_def)
  have h2: "Run ?c [SelectDone] s = Some (s\<lparr>phase := Returned\<rparr>)"
    using w d by simp
  from Run_callback_per_tick [OF h1 h2, of runtime_idle "[]"] w
  have "elapsed s = length (invoked s) + dropped s + (if tick_waiting s then 1 else 0)"
    by blast
  with w have "length (invoked s) = 3"
    by simp
  with h1 h2 w p show ?thesis
    by (auto simp del: Run.simps prompt_ticks.simps)
qed

text \<open>
  Claim C4, as stated, fails in both halves. The \<open>select\<close> gives the \<open>Done\<close> case no
  priority: a tick elapses, \<open>Done\<close> is closed, and the \<open>select\<close>, with both cases ready,
  takes the tick, so the callback is invoked after \<open>Done\<close> was closed. And a callback that
  is slow loses ticks: two ticks elapse during the first invocation, the ticker keeps one,
  and three elapsed ticks end with two invocations and no tick waiting.
\<close>

theorem Run_callback_after_Done_closed_counterexample:
  "Run collector_with_Done [TickElapsed, CloseDone] (Run_start collector_with_Done) =
     Some \<lparr> phase = Waiting, tick_waiting = True, done_closed = True, invoked = [],
            elapsed = 1, dropped = 0 \<rparr> \<and>
   Run collector_with_Done [TickElapsed, CloseDone, SelectTick runtime_idle]
       (Run_start collector_with_Done) =
     Some \<lparr> phase = InCallback, tick_waiting = False, done_closed = True,
            invoked = [Fields_zero\<lparr> NumCpu := 4, NumGoroutine := 2, NumCgoCall := 1,
                         Goarch := ''amd64'', Goos := ''linux'', Version := ''go1.7.4'' \<rparr>],
            elapsed = 1, dropped = 0 \<rparr> \<and>
   Run collector_with_Done
       [TickElapsed, SelectTick runtime_idle, TickElapsed, TickElapsed, CallbackReturn,
        SelectTick runtime_idle, CallbackReturn] (Run_start collector_with_Done) =
     Some \<lparr> phase = Waiting, tick_waiting = False, done_closed = False,
            invoked = [Fields_zero\<lparr> NumCpu := 4, NumGoroutine := 2, NumCgoCall := 1,
                         Goarch := ''amd64'', Goos := ''linux'', Version := ''go1.7.4'' \<rparr>,
                       Fields_zero\<lparr> NumCpu := 4, NumGoroutine := 2, NumCgoCall := 1,
                         Goarch := ''amd64'', Goos := ''linux'', Version := ''go1.7.4'' \<rparr>],
            elapsed = 3, dropped = 1 \<rparr>"
proof -
  have p: "0 <s PauseDur collector_with_Done"
    by (simp add: collector_with_Done_def New_def Second_def word_sless_alt)
  have f: "CollectStats collector_with_Done runtime_idle =
      Inr (Fields_zero\<lparr> NumCpu := 4, NumGoroutine := 2, NumCgoCall := 1,
                         Goarch := ''amd64'', Goos := ''linux'', Version := ''go1.7.4'' \<rparr>)"
    by (simp add: collector_with_Done_def CollectStats_Inr New_def
      collectMemStats_Inr collectCPUStats_def runtime_idle_def MemStats_zero_def Fields_zero_def)
  have d: "Done collector_with_Done \<noteq> None"
    by (simp add: collector_with_Done_def)
  show ?thesis
    using p d by (simp add: Run_start_def f)
qed

end
